theory Spec2Isabelle
  imports Complex_Main
begin

section \<open>Arrays, index macros and counted loops\<close>

text \<open>
  The programs \<^verbatim>\<open>3layer\<close> and \<^verbatim>\<open>fit-layer\<close> keep every field in a flat
  \<^verbatim>\<open>double *\<close> array addressed through index macros. An array is modelled as a
  store from (C \<^verbatim>\<open>int\<close>) indices to values; \<^verbatim>\<open>double\<close> arithmetic is idealised
  by the real numbers and C \<^verbatim>\<open>int\<close> values by mathematical integers, except for the
  delay step count \<^verbatim>\<open>nds\<close> of the solver, a \<^verbatim>\<open>long\<close> stored in an \<^verbatim>\<open>int\<close> that no
  array bound constrains, where the narrowing is written out. All index hypotheses of
  the theorems below keep every access inside its allocated block.
\<close>

type_synonym darray = "int \<Rightarrow> real"

text \<open>\<^verbatim>\<open>create_array\<close> (extras.c): a fresh array, every element 0.\<close>

definition create_array :: darray where
  "create_array = (\<lambda>_. 0)"

text \<open>\<^verbatim>\<open>#define INDEX(i,j) ((i)*(nr+1)+(j))\<close> (header.h).\<close>

definition INDEX :: "int \<Rightarrow> int \<Rightarrow> int \<Rightarrow> int" where
  "INDEX nr i j = i * (nr + 1) + j"

text \<open>\<^verbatim>\<open>#define A(i,j) a[((i)*N+(j))]\<close> and \<^verbatim>\<open>OUT(i,j)\<close> (convo.c) share this index.\<close>

definition cidx :: "int \<Rightarrow> int \<Rightarrow> int \<Rightarrow> int" where
  "cidx N i j = i * N + j"

text \<open>\<^verbatim>\<open>for (k = lo; k < hi; k++) body\<close>, the state passed through the iterations.\<close>

definition for_loop :: "int \<Rightarrow> int \<Rightarrow> (int \<Rightarrow> 'a \<Rightarrow> 'a) \<Rightarrow> 'a \<Rightarrow> 'a" where
  "for_loop lo hi body st = fold body [lo..hi - 1] st"

text \<open>\<^verbatim>\<open>lround\<close>: round to nearest, halfway cases away from zero.\<close>

definition lround :: "real \<Rightarrow> int" where
  "lround x = (if 0 \<le> x then \<lfloor>x + 1 / 2\<rfloor> else - \<lfloor>- x + 1 / 2\<rfloor>)"

text \<open>
  The conversion of the \<^verbatim>\<open>long\<close> that \<^verbatim>\<open>lround\<close> returns to a 32-bit \<^verbatim>\<open>int\<close>, as in
  \<^verbatim>\<open>int nds = lround(sd/dt);\<close>: the value is reduced modulo \<open>2\<^sup>3\<^sup>2\<close> into
  \<open>[- 2\<^sup>3\<^sup>1, 2\<^sup>3\<^sup>1)\<close> (the conversion gcc defines; a 64-bit \<^verbatim>\<open>long\<close> in between changes
  nothing, \<open>2\<^sup>3\<^sup>2\<close> dividing \<open>2\<^sup>6\<^sup>4\<close>).
\<close>

definition int_of_long :: "int \<Rightarrow> int" where
  "int_of_long n = (n + 2 ^ 31) mod 2 ^ 32 - 2 ^ 31"

section \<open>The Laplacian stencil (convo.c)\<close>

text \<open>
  \<^verbatim>\<open>convolve3\<close> is a sequence of twelve groups of assignments to \<^verbatim>\<open>out\<close>, each
  reading only the input array \<^verbatim>\<open>a\<close>. The groups are kept in the order of the source,
  because later groups overwrite cells written by earlier ones (the loops for
  \<^verbatim>\<open>i=0\<close> and \<^verbatim>\<open>i=M-1\<close> start at \<^verbatim>\<open>j=1\<close>).
\<close>

definition conv_inner :: "int \<Rightarrow> int \<Rightarrow> darray \<Rightarrow> real \<Rightarrow> real \<Rightarrow> darray \<Rightarrow> darray \<Rightarrow> darray" where
  "conv_inner M N a scale1 scale2 invr =
     for_loop 1 (M - 1) (\<lambda>i. for_loop 2 (N - 1) (\<lambda>j out.
       out(cidx N i j :=
         scale1 * (a (cidx N (i - 1) j)
                   + a (cidx N i (j - 1)) - 4 * a (cidx N i j) + a (cidx N i (j + 1))
                   + a (cidx N (i + 1) j))
         + scale2 * ((- a (cidx N i (j - 1)) + a (cidx N i (j + 1))) * invr j))))"

definition conv_axis :: "int \<Rightarrow> int \<Rightarrow> darray \<Rightarrow> real \<Rightarrow> darray \<Rightarrow> darray" where
  "conv_axis M N a scale1 =
     for_loop 1 (M - 1) (\<lambda>i out.
       out(cidx N i 1 :=
         scale1 * (a (cidx N (i - 1) 1)
                   + 2 * a (cidx N i 0) - 6 * a (cidx N i 1) + 2 * a (cidx N i 2)
                   + a (cidx N (i + 1) 1))))"

definition conv_axis_first :: "int \<Rightarrow> int \<Rightarrow> darray \<Rightarrow> real \<Rightarrow> darray \<Rightarrow> darray" where
  "conv_axis_first M N a scale1 out =
     out(cidx N 0 1 :=
       scale1 * (2 * a (cidx N 0 0) - 6 * a (cidx N 0 1) + 2 * a (cidx N 0 2)
                 + a (cidx N 1 1)))"

definition conv_axis_last :: "int \<Rightarrow> int \<Rightarrow> darray \<Rightarrow> real \<Rightarrow> darray \<Rightarrow> darray" where
  "conv_axis_last M N a scale1 out =
     out(cidx N (M - 1) 1 :=
       scale1 * (a (cidx N (M - 2) 1)
                 + 2 * a (cidx N (M - 1) 0) - 6 * a (cidx N (M - 1) 1) + 2 * a (cidx N (M - 1) 2)))"

definition conv_row_first :: "int \<Rightarrow> int \<Rightarrow> darray \<Rightarrow> real \<Rightarrow> real \<Rightarrow> darray \<Rightarrow> darray \<Rightarrow> darray" where
  "conv_row_first M N a scale1 scale2 invr =
     for_loop 1 (N - 1) (\<lambda>j out.
       out(cidx N 0 j :=
         scale1 * (a (cidx N 0 (j - 1)) - 4 * a (cidx N 0 j) + a (cidx N 0 (j + 1))
                   + a (cidx N 1 j))
         + scale2 * ((- a (cidx N 0 (j - 1)) + a (cidx N 0 (j + 1))) * invr j)))"

definition conv_row_last :: "int \<Rightarrow> int \<Rightarrow> darray \<Rightarrow> real \<Rightarrow> real \<Rightarrow> darray \<Rightarrow> darray \<Rightarrow> darray" where
  "conv_row_last M N a scale1 scale2 invr =
     for_loop 1 (N - 1) (\<lambda>j out.
       out(cidx N (M - 1) j :=
         scale1 * (a (cidx N (M - 2) j)
                   + a (cidx N (M - 1) (j - 1)) - 4 * a (cidx N (M - 1) j) + a (cidx N (M - 1) (j + 1)))
         + scale2 * ((- a (cidx N (M - 1) (j - 1)) + a (cidx N (M - 1) (j + 1))) * invr j)))"

definition conv_col_first :: "int \<Rightarrow> int \<Rightarrow> darray \<Rightarrow> real \<Rightarrow> real \<Rightarrow> darray \<Rightarrow> darray \<Rightarrow> darray" where
  "conv_col_first M N a scale1 scale2 invr =
     for_loop 1 (M - 1) (\<lambda>i out.
       out(cidx N i 0 :=
         scale1 * (a (cidx N (i - 1) 0)
                   - 4 * a (cidx N i 0) + a (cidx N i 1)
                   + a (cidx N (i + 1) 0))
         + scale2 * (a (cidx N i 1) * invr 0)))"

definition conv_col_last :: "int \<Rightarrow> int \<Rightarrow> darray \<Rightarrow> real \<Rightarrow> real \<Rightarrow> darray \<Rightarrow> darray \<Rightarrow> darray" where
  "conv_col_last M N a scale1 scale2 invr =
     for_loop 1 (M - 1) (\<lambda>i out.
       out(cidx N i (N - 1) :=
         scale1 * (a (cidx N (i - 1) (N - 1))
                   + a (cidx N i (N - 2)) - 4 * a (cidx N i (N - 1))
                   + a (cidx N (i + 1) (N - 1)))
         + scale2 * (- a (cidx N i (N - 2)) * invr (N - 1))))"

definition conv_corners :: "int \<Rightarrow> int \<Rightarrow> darray \<Rightarrow> real \<Rightarrow> real \<Rightarrow> darray \<Rightarrow> darray \<Rightarrow> darray" where
  "conv_corners M N a scale1 scale2 invr out =
     (let out = out(cidx N 0 0 :=
            scale1 * (- 4 * a (cidx N 0 0) + a (cidx N 0 1)
                      + a (cidx N 1 0))
            + scale2 * (a (cidx N 0 1) * invr 0));
          out = out(cidx N 0 (N - 1) :=
            scale1 * (a (cidx N 0 (N - 2)) - 4 * a (cidx N 0 (N - 1))
                      + a (cidx N 1 (N - 1)))
            + scale2 * (- a (cidx N 0 (N - 2)) * invr (N - 1)));
          out = out(cidx N (M - 1) 0 :=
            scale1 * (a (cidx N (M - 2) 0)
                      - 4 * a (cidx N (M - 1) 0) + a (cidx N (M - 1) 1))
            + scale2 * (a (cidx N (M - 1) 1) * invr 0));
          out = out(cidx N (M - 1) (N - 1) :=
            scale1 * (a (cidx N (M - 2) (N - 1))
                      + a (cidx N (M - 1) (N - 2)) - 4 * a (cidx N (M - 1) (N - 1)))
            + scale2 * (- a (cidx N (M - 1) (N - 2)) * invr (N - 1)))
      in out)"

definition convolve3 :: "int \<Rightarrow> int \<Rightarrow> darray \<Rightarrow> real \<Rightarrow> real \<Rightarrow> darray \<Rightarrow> darray \<Rightarrow> darray" where
  "convolve3 M N a scale1 scale2 invr out =
     (let out = conv_inner M N a scale1 scale2 invr out;
          out = conv_axis M N a scale1 out;
          out = conv_axis_first M N a scale1 out;
          out = conv_axis_last M N a scale1 out;
          out = conv_row_first M N a scale1 scale2 invr out;
          out = conv_row_last M N a scale1 scale2 invr out;
          out = conv_col_first M N a scale1 scale2 invr out;
          out = conv_col_last M N a scale1 scale2 invr out;
          out = conv_corners M N a scale1 scale2 invr out
      in out)"

section \<open>Macros, constants and fatal errors\<close>

text \<open>\<^verbatim>\<open>#define SQR(x) ((x) * (x))\<close> and the Faraday constant of header.h.\<close>

definition SQR :: "real \<Rightarrow> real" where
  "SQR x = x * x"

definition FARADAY :: real where
  "FARADAY = 96485.3399"

text \<open>
  \<^verbatim>\<open>error(...)\<close> prints its message and calls \<^verbatim>\<open>exit(EXIT_FAILURE)\<close>. Each call
  site met below is one constructor, carrying the integers the message prints.
\<close>

datatype error =
    Delay_start int int
  | Isource_negative int int
  | Isource_too_large int int
  | Jsource_negative int int
  | Jsource_too_large int int

section \<open>The homogeneous model (rti-theory.c)\<close>

text \<open>
  \<^verbatim>\<open>rti_theory\<close> fills \<^verbatim>\<open>p_theory[0..nt-1]\<close>. The complementary error function of the
  C library is a parameter \<open>erfc\<close> of the model; \<^verbatim>\<open>PI\<close> is \<^verbatim>\<open>M_PI\<close>. The argument
  \<^verbatim>\<open>kappa\<close> is not used by the function.
\<close>

definition rti_theory ::
  "(real \<Rightarrow> real) \<Rightarrow> int \<Rightarrow> real \<Rightarrow> real \<Rightarrow> real \<Rightarrow> real \<Rightarrow> real \<Rightarrow> real \<Rightarrow> real \<Rightarrow> real
     \<Rightarrow> darray \<Rightarrow> darray \<Rightarrow> darray" where
  "rti_theory erfc nt spdist samplitude sdelay sduration kappa dfree alpha theta t p_theory =
     (let dstar = theta * dfree;
          ampl = samplitude / (4 * pi * alpha * dstar * spdist)
      in for_loop 0 nt (\<lambda>i p_theory.
           if t i \<le> sdelay then p_theory(i := 0)
           else (let p_theory = p_theory(i :=
                       ampl * erfc (spdist / (2 * sqrt (dstar * (t i - sdelay)))))
                 in if t i > sdelay + sduration
                    then p_theory(i := p_theory i
                           - ampl * erfc (spdist / (2 * sqrt (dstar * (t i - (sdelay + sduration))))))
                    else p_theory)) p_theory)"

section \<open>The source array (main of 3layer.c)\<close>

text \<open>
  The blocks of \<^verbatim>\<open>main\<close> that turn the source descriptors into the source array
  \<^verbatim>\<open>s\<close>: the source amplitude, the array of the \<^verbatim>\<open>alpha\<close> of every cell, the array
  \<^verbatim>\<open>invr\<close>, the first source, and the loop over the additional sources.
\<close>

definition source_amplitude :: "real \<Rightarrow> real \<Rightarrow> real" where
  "source_amplitude crnt trn = crnt * trn / FARADAY"

definition alphas_array :: "int \<Rightarrow> int \<Rightarrow> int \<Rightarrow> int \<Rightarrow> real \<Rightarrow> real \<Rightarrow> real \<Rightarrow> darray" where
  "alphas_array nz nr iz1 iz2 alpha_sr alpha_sp alpha_so =
     for_loop 0 (nr + 1) (\<lambda>j alphas.
       (let alphas = for_loop 0 (iz1 + 1) (\<lambda>i x. x(INDEX nr i j := alpha_sr)) alphas;
            alphas = for_loop (iz1 + 1) (iz2 + 1) (\<lambda>i x. x(INDEX nr i j := alpha_sp)) alphas;
            alphas = for_loop (iz2 + 1) nz (\<lambda>i x. x(INDEX nr i j := alpha_so)) alphas
        in alphas)) create_array"

definition invr_array :: "int \<Rightarrow> real \<Rightarrow> darray" where
  "invr_array nr dr =
     (let invr = create_array;
          invr = invr(0 := 1 / dr);
          invr = invr(1 := 0)
      in for_loop 2 (nr + 1) (\<lambda>j x. x(j := 1 / ((real_of_int j - 1) * dr))) invr)"

definition first_source :: "int \<Rightarrow> darray \<Rightarrow> real \<Rightarrow> real \<Rightarrow> real \<Rightarrow> real \<Rightarrow> real \<Rightarrow> real \<Rightarrow> darray" where
  "first_source nr alphas samplitude dt dr dz sz sr =
     (let s = create_array;
          isource = lround (sz / dz);
          jsource = 1 + lround (sr / dr)
      in s(INDEX nr isource jsource :=
            (1 / alphas (INDEX nr isource jsource))
            * samplitude * dt * 4 / (pi * SQR dr * dz)))"

text \<open>\<^verbatim>\<open>source_struct_type\<close> (header.h), and one turn of the loop over the additional
  sources, for the source number \<open>nsource\<close>.\<close>

record source_struct_type =
  sz :: real
  sr :: real
  crnt :: real

definition additional_source ::
  "int \<Rightarrow> int \<Rightarrow> darray \<Rightarrow> real \<Rightarrow> real \<Rightarrow> real \<Rightarrow> real \<Rightarrow> real \<Rightarrow> int \<Rightarrow> source_struct_type
     \<Rightarrow> darray \<Rightarrow> error + darray" where
  "additional_source nz nr alphas trn dt dr dz coord_shift nsource src s =
     (let new_source = src;
          new_source = new_source\<lparr>sz := sz new_source + coord_shift\<rparr>;
          isource = lround (sz new_source / dz);
          jsource = 1 + lround (sr new_source / dr);
          samplitude = crnt new_source * trn / FARADAY
      in if isource < 0 then Inl (Isource_negative nsource isource)
         else if isource > nz - 1 then Inl (Isource_too_large nsource isource)
         else if jsource < 0 then Inl (Jsource_negative nsource jsource)
         else if jsource > nr then Inl (Jsource_too_large nsource jsource)
         else Inr (s(INDEX nr isource jsource := s (INDEX nr isource jsource)
                     + (1 / alphas (INDEX nr isource jsource))
                       * samplitude * dt * 4 / (pi * SQR dr * dz))))"

fun additional_sources ::
  "int \<Rightarrow> int \<Rightarrow> darray \<Rightarrow> real \<Rightarrow> real \<Rightarrow> real \<Rightarrow> real \<Rightarrow> real \<Rightarrow> int \<Rightarrow> source_struct_type list
     \<Rightarrow> darray \<Rightarrow> error + darray" where
  "additional_sources nz nr alphas trn dt dr dz coord_shift nsource [] s = Inr s"
| "additional_sources nz nr alphas trn dt dr dz coord_shift nsource (src # srcs) s =
     (case additional_source nz nr alphas trn dt dr dz coord_shift nsource src s of
        Inl e \<Rightarrow> Inl e
      | Inr s' \<Rightarrow> additional_sources nz nr alphas trn dt dr dz coord_shift (nsource + 1) srcs s')"

section \<open>The forward solver (model.c)\<close>

text \<open>
  \<^verbatim>\<open>param_struct_type\<close> (fit-layer.c). The solver
  \<^verbatim>\<open>calc_diffusion_curve_layer_fit_layer\<close> receives the fields of this struct as
  its arguments (\<^verbatim>\<open>p->nt, p->nz, ...\<close>), under the same names; the solver
  \<^verbatim>\<open>calc_diffusion_curve_layer\<close> of 3layer has the same body, statement by
  statement, with \<^verbatim>\<open>sdelay\<close>, \<^verbatim>\<open>sduration\<close> for \<^verbatim>\<open>sd\<close>, \<^verbatim>\<open>st\<close>, and in addition
  writes image files when \<^verbatim>\<open>image_spacing > 0\<close>, which reads \<^verbatim>\<open>c\<close> and changes
  neither \<^verbatim>\<open>c\<close> nor \<^verbatim>\<open>p\<close>. The model below is that common body.
\<close>

record param_struct_type =
  nt :: int
  nd :: int
  nz :: int
  nr :: int
  iprobe :: int
  jprobe :: int
  iz1 :: int
  iz2 :: int
  nolayer :: int
  opt_global_kappa :: int
  dt :: real
  dr :: real
  sd :: real
  st :: real
  alpha_so :: real
  theta_so :: real
  kappa_so :: real
  alpha_sp :: real
  theta_sp :: real
  kappa_sp :: real
  alpha_sr :: real
  theta_sr :: real
  kappa_sr :: real
  minalpha :: real
  maxalpha :: real
  mintheta :: real
  maxtheta :: real
  minkappa :: real
  maxkappa :: real
  dfree :: real
  t :: darray
  s :: darray
  invr :: darray
  t_data :: darray
  p_data :: darray
  p_model :: darray

text \<open>
  The field \<^verbatim>\<open>p\<close> of the struct (the probe curve the solver fills) is \<open>p_model\<close>
  here, since \<open>p\<close> names the solver's own array below. The arrays local to the solver,
  allocated once before the time loop and reused by every step, and its output \<^verbatim>\<open>p\<close>:
\<close>

record solver_state =
  c :: darray
  c_sr :: darray
  c_sp :: darray
  c_so :: darray
  cb_sr :: darray
  cb_so :: darray
  dc :: darray
  dc_sr :: darray
  dc_sp :: darray
  dc_so :: darray
  p :: darray

definition dstar_so :: "param_struct_type \<Rightarrow> real" where
  "dstar_so P = theta_so P * dfree P"

definition dstar_sp :: "param_struct_type \<Rightarrow> real" where
  "dstar_sp P = theta_sp P * dfree P"

definition dstar_sr :: "param_struct_type \<Rightarrow> real" where
  "dstar_sr P = theta_sr P * dfree P"

definition const_so1 :: "param_struct_type \<Rightarrow> real" where
  "const_so1 P = dstar_so P * dt P / SQR (dr P)"

definition const_so2 :: "param_struct_type \<Rightarrow> real" where
  "const_so2 P = dstar_so P * dt P / (2 * dr P)"

definition const_sp1 :: "param_struct_type \<Rightarrow> real" where
  "const_sp1 P = dstar_sp P * dt P / SQR (dr P)"

definition const_sp2 :: "param_struct_type \<Rightarrow> real" where
  "const_sp2 P = dstar_sp P * dt P / (2 * dr P)"

definition const_sr1 :: "param_struct_type \<Rightarrow> real" where
  "const_sr1 P = dstar_sr P * dt P / SQR (dr P)"

definition const_sr2 :: "param_struct_type \<Rightarrow> real" where
  "const_sr2 P = dstar_sr P * dt P / (2 * dr P)"

text \<open>The first loop of the 3-layer branch: the interface values for every column.\<close>

definition interface_values :: "param_struct_type \<Rightarrow> solver_state \<Rightarrow> solver_state" where
  "interface_values P =
     for_loop 0 (nr P + 1) (\<lambda>j S.
       (let S = S\<lparr>cb_sr := (cb_sr S)(j :=
                  (dstar_sr P * alpha_sr P * c S (INDEX (nr P) (iz1 P) j)
                   + dstar_sp P * alpha_sp P * c S (INDEX (nr P) (iz1 P + 1) j))
                  / (dstar_sr P * alpha_sr P + dstar_sp P * alpha_sp P))\<rparr>;
            S = S\<lparr>cb_so := (cb_so S)(j :=
                  (dstar_sp P * alpha_sp P * c S (INDEX (nr P) (iz2 P) j)
                   + dstar_so P * alpha_so P * c S (INDEX (nr P) (iz2 P + 1) j))
                  / (dstar_sp P * alpha_sp P + dstar_so P * alpha_so P))\<rparr>
        in S))"

text \<open>The second loop: the three sub-grids, with their extrapolated boundary rows.\<close>

definition split_layers :: "param_struct_type \<Rightarrow> solver_state \<Rightarrow> solver_state" where
  "split_layers P =
     for_loop 0 (nr P + 1) (\<lambda>j S.
       (let S = S\<lparr>c_sr := for_loop 0 (iz1 P + 1) (\<lambda>i x.
                  x(INDEX (nr P) i j := c S (INDEX (nr P) i j))) (c_sr S)\<rparr>;
            S = S\<lparr>c_sr := (c_sr S)(INDEX (nr P) (iz1 P + 1) j :=
                  2 * cb_sr S j - c S (INDEX (nr P) (iz1 P) j))\<rparr>;
            S = S\<lparr>c_sp := (c_sp S)(INDEX (nr P) 0 j :=
                  2 * cb_sr S j - c S (INDEX (nr P) (iz1 P + 1) j))\<rparr>;
            S = S\<lparr>c_sp := for_loop (iz1 P + 1) (iz2 P + 1) (\<lambda>i x.
                  x(INDEX (nr P) (i - iz1 P) j := c S (INDEX (nr P) i j))) (c_sp S)\<rparr>;
            S = S\<lparr>c_sp := (c_sp S)(INDEX (nr P) (iz2 P - iz1 P + 1) j :=
                  2 * cb_so S j - c S (INDEX (nr P) (iz2 P) j))\<rparr>;
            S = S\<lparr>c_so := (c_so S)(INDEX (nr P) 0 j :=
                  2 * cb_so S j - c S (INDEX (nr P) (iz2 P + 1) j))\<rparr>;
            S = S\<lparr>c_so := for_loop (iz2 P + 1) (nz P) (\<lambda>i x.
                  x(INDEX (nr P) (i - iz2 P) j := c S (INDEX (nr P) i j))) (c_so S)\<rparr>
        in S))"

text \<open>The three calls of \<^verbatim>\<open>convolve3\<close>.\<close>

definition convolve_layers :: "param_struct_type \<Rightarrow> solver_state \<Rightarrow> solver_state" where
  "convolve_layers P S =
     (let S = S\<lparr>dc_sr := convolve3 (iz1 P + 2) (nr P + 1) (c_sr S)
                   (const_sr1 P) (const_sr2 P) (invr P) (dc_sr S)\<rparr>;
          S = S\<lparr>dc_sp := convolve3 (iz2 P - iz1 P + 2) (nr P + 1) (c_sp S)
                   (const_sp1 P) (const_sp2 P) (invr P) (dc_sp S)\<rparr>;
          S = S\<lparr>dc_so := convolve3 (nz P - iz2 P) (nr P + 1) (c_so S)
                   (const_so1 P) (const_so2 P) (invr P) (dc_so S)\<rparr>
      in S)"

text \<open>The last loop of the 3-layer branch: the concentration matrix is updated.\<close>

definition merge_layers :: "param_struct_type \<Rightarrow> solver_state \<Rightarrow> solver_state" where
  "merge_layers P =
     for_loop 0 (nr P + 1) (\<lambda>j S.
       (let S = S\<lparr>c := for_loop 0 (iz1 P + 1) (\<lambda>i x.
                  x(INDEX (nr P) i j := c_sr S (INDEX (nr P) i j)
                                        + dc_sr S (INDEX (nr P) i j))) (c S)\<rparr>;
            S = S\<lparr>c := for_loop (iz1 P + 1) (iz2 P + 1) (\<lambda>i x.
                  x(INDEX (nr P) i j := c_sp S (INDEX (nr P) (i - iz1 P) j)
                                        + dc_sp S (INDEX (nr P) (i - iz1 P) j))) (c S)\<rparr>;
            S = S\<lparr>c := for_loop (iz2 P + 1) (nz P) (\<lambda>i x.
                  x(INDEX (nr P) i j := c_so S (INDEX (nr P) (i - iz2 P) j)
                                        + dc_so S (INDEX (nr P) (i - iz2 P) j))) (c S)\<rparr>
        in S))"

definition layer_branch :: "param_struct_type \<Rightarrow> solver_state \<Rightarrow> solver_state" where
  "layer_branch P S =
     (let S = interface_values P S;
          S = split_layers P S;
          S = convolve_layers P S;
          S = merge_layers P S
      in S)"

text \<open>The 1-layer branch (the printed note aside).\<close>

definition nolayer_branch :: "param_struct_type \<Rightarrow> solver_state \<Rightarrow> solver_state" where
  "nolayer_branch P S =
     (let S = S\<lparr>dc := convolve3 (nz P) (nr P + 1) (c S)
                   (const_sr1 P) (const_sr2 P) (invr P) (dc S)\<rparr>;
          S = S\<lparr>c := for_loop 0 (nz P * (nr P + 1)) (\<lambda>i x. x(i := x i + dc S i)) (c S)\<rparr>
      in S)"

definition add_source :: "param_struct_type \<Rightarrow> int \<Rightarrow> solver_state \<Rightarrow> solver_state" where
  "add_source P k S =
     (if t P k + dt P / 2 < sd P + st P
      then S\<lparr>c := for_loop 0 (nz P * (nr P + 1)) (\<lambda>i x. x(i := x i + s P i)) (c S)\<rparr>
      else S)"

definition clearance :: "param_struct_type \<Rightarrow> solver_state \<Rightarrow> solver_state" where
  "clearance P S =
     S\<lparr>c := for_loop 0 (nr P + 1) (\<lambda>j x.
       (let x = for_loop 0 (iz1 P + 1) (\<lambda>i x.
                  x(INDEX (nr P) i j := x (INDEX (nr P) i j) * (1 - kappa_sr P * dt P))) x;
            x = for_loop (iz1 P + 1) (iz2 P + 1) (\<lambda>i x.
                  x(INDEX (nr P) i j := x (INDEX (nr P) i j) * (1 - kappa_sp P * dt P))) x;
            x = for_loop (iz2 P + 1) (nz P) (\<lambda>i x.
                  x(INDEX (nr P) i j := x (INDEX (nr P) i j) * (1 - kappa_so P * dt P))) x
        in x)) (c S)\<rparr>"

definition mirror_axis :: "param_struct_type \<Rightarrow> solver_state \<Rightarrow> solver_state" where
  "mirror_axis P S =
     S\<lparr>c := for_loop 0 (nz P) (\<lambda>i x.
       x(INDEX (nr P) i 0 := x (INDEX (nr P) i 2))) (c S)\<rparr>"

text \<open>The body of the loop over time, for step index \<open>k\<close>.\<close>

definition time_step :: "param_struct_type \<Rightarrow> int \<Rightarrow> solver_state \<Rightarrow> solver_state" where
  "time_step P k S =
     (let S = S\<lparr>p := (p S)(k := c S (INDEX (nr P) (iprobe P) (jprobe P)))\<rparr>;
          S = (if nolayer P = 0 then layer_branch P S else nolayer_branch P S);
          S = add_source P k S;
          S = clearance P S;
          S = mirror_axis P S
      in S)"

text \<open>\<^verbatim>\<open>int nds = lround(sd/dt);\<close>: the delay step count, a \<^verbatim>\<open>long\<close> narrowed to \<^verbatim>\<open>int\<close>.\<close>

definition nds :: "param_struct_type \<Rightarrow> int" where
  "nds P = int_of_long (lround (sd P / dt P))"

text \<open>The state on entry to the loop over time: fresh arrays, \<^verbatim>\<open>c\<close> a copy of \<^verbatim>\<open>s\<close>,
  and the probe curve zero over the source delay.\<close>

definition solver_init :: "param_struct_type \<Rightarrow> darray \<Rightarrow> solver_state" where
  "solver_init P p0 =
     \<lparr>c = for_loop 0 (nz P * (nr P + 1)) (\<lambda>i x. x(i := s P i)) create_array,
      c_sr = create_array, c_sp = create_array, c_so = create_array,
      cb_sr = create_array, cb_so = create_array,
      dc = create_array, dc_sr = create_array, dc_sp = create_array, dc_so = create_array,
      p = for_loop 0 (nds P) (\<lambda>k x. x(k := 0)) p0\<rparr>"

text \<open>The state after the steps \<open>nds, ..., n - 1\<close> of the loop over time.\<close>

definition time_loop :: "param_struct_type \<Rightarrow> darray \<Rightarrow> int \<Rightarrow> solver_state" where
  "time_loop P p0 n = for_loop (nds P) n (time_step P) (solver_init P p0)"

definition calc_diffusion_curve_layer_fit_layer :: "param_struct_type \<Rightarrow> darray \<Rightarrow> error + darray" where
  "calc_diffusion_curve_layer_fit_layer P p0 =
     (if nds P \<ge> nt P then Inl (Delay_start (nds P) (nt P))
      else Inr (p (time_loop P p0 (nt P))))"

section \<open>The fit objective (fit-layer.c)\<close>

text \<open>
  \<^verbatim>\<open>calc_mse_fit_layer\<close>. The candidate \<open>x\<close> is the \<^verbatim>\<open>gsl_vector\<close> of
  \<^verbatim>\<open>(alpha, theta, kappa)\<close> of SP, read with \<^verbatim>\<open>gsl_vector_get(x, i)\<close> as \<open>x i\<close>. The
  function writes the candidate into the struct, which the model returns beside the
  value. The two steps are kept as two definitions: the struct as passed to the solver,
  and the error summed over the resampled curve.
\<close>

definition set_candidate :: "darray \<Rightarrow> param_struct_type \<Rightarrow> param_struct_type" where
  "set_candidate x P =
     (let P = P\<lparr>alpha_sp := x 0\<rparr>;
          P = P\<lparr>theta_sp := x 1\<rparr>;
          P = P\<lparr>kappa_sp := x 2\<rparr>;
          P = (if alpha_sp P \<le> 0.001 then P\<lparr>alpha_sp := 0.001\<rparr> else P);
          P = (if theta_sp P \<le> 0.001 then P\<lparr>theta_sp := 0.001\<rparr> else P);
          P = (if opt_global_kappa P \<noteq> 0
               then P\<lparr>kappa_sr := kappa_sp P, kappa_so := kappa_sp P\<rparr> else P)
      in P)"

definition resampled_mse :: "param_struct_type \<Rightarrow> real" where
  "resampled_mse P =
     (if nt P > nd P
      then (let index_scale = real_of_int (nt P) / real_of_int (nd P);
                mse = for_loop 1 (nd P) (\<lambda>i mse.
                        (let p_index = lround (real_of_int i * index_scale)
                         in mse + SQR (p_model P p_index - p_data P i))) 0
            in mse / real_of_int (nd P))
      else (let index_scale = real_of_int (nd P) / real_of_int (nt P);
                mse = for_loop 1 (nt P) (\<lambda>i mse.
                        (let p_index = lround (real_of_int i * index_scale)
                         in mse + SQR (p_model P i - p_data P p_index))) 0
            in mse / real_of_int (nt P)))"

definition penalty_factor :: real where
  "penalty_factor = 10"

definition add_penalties :: "param_struct_type \<Rightarrow> real \<Rightarrow> real" where
  "add_penalties P mse =
     (let mse = (if alpha_sp P < minalpha P
                 then mse + (minalpha P - alpha_sp P) * penalty_factor else mse);
          mse = (if alpha_sp P > maxalpha P
                 then mse + (alpha_sp P - maxalpha P) * penalty_factor else mse);
          mse = (if theta_sp P < mintheta P
                 then mse + (mintheta P - theta_sp P) * penalty_factor else mse);
          mse = (if theta_sp P > maxtheta P
                 then mse + (theta_sp P - maxtheta P) * penalty_factor else mse);
          mse = (if kappa_sp P < minkappa P
                 then mse + (minkappa P - kappa_sp P) * penalty_factor else mse);
          mse = (if kappa_sp P > maxkappa P
                 then mse + (kappa_sp P - maxkappa P) * penalty_factor else mse)
      in mse)"

definition calc_mse_fit_layer :: "darray \<Rightarrow> param_struct_type \<Rightarrow> error + real \<times> param_struct_type" where
  "calc_mse_fit_layer x P =
     (let P = set_candidate x P
      in case calc_diffusion_curve_layer_fit_layer P (p_model P) of
           Inl e \<Rightarrow> Inl e
         | Inr curve \<Rightarrow>
             (let P = P\<lparr>p_model := curve\<rparr>;
                  mse = resampled_mse P;
                  mse = add_penalties P mse
              in Inr (mse, P)))"

section \<open>A small configuration\<close>

text \<open>
  A grid of 6 rows and 4 columns \<open>(nr = 3)\<close> with two rows per layer, used to instantiate
  the theorems below: \<open>dt = dr = 1\<close>, \<open>D* = 1/25\<close> in SR and SO and \<open>3/100\<close> in SP, a unit
  source at the axis cell of row 2 that is switched on at \<open>t = 1\<close> for one unit of time,
  and the probe at the axis cell of row 4.
\<close>

definition small_config :: param_struct_type where
  "small_config =
     \<lparr>nt = 3, nd = 2, nz = 6, nr = 3, iprobe = 4, jprobe = 1, iz1 = 1, iz2 = 3,
      nolayer = 0, opt_global_kappa = 0,
      dt = 1, dr = 1, sd = 1, st = 1,
      alpha_so = 1 / 5, theta_so = 2 / 5, kappa_so = 1 / 100,
      alpha_sp = 1 / 10, theta_sp = 3 / 10, kappa_sp = 1 / 50,
      alpha_sr = 1 / 5, theta_sr = 2 / 5, kappa_sr = 0,
      minalpha = 1 / 20, maxalpha = 1 / 2, mintheta = 1 / 10, maxtheta = 1,
      minkappa = 0, maxkappa = 1 / 10,
      dfree = 1 / 10,
      t = (\<lambda>k. 1 * real_of_int k),
      s = (\<lambda>k. if k = INDEX 3 2 1 then 1 else 0),
      invr = invr_array 3 1,
      t_data = (\<lambda>k. real_of_int k),
      p_data = (\<lambda>_. 0),
      p_model = create_array\<rparr>"

section \<open>The magnitude of a bound violation\<close>

text \<open>
  Following the words of the specification, not the code: the amount by which a value
  \<open>v\<close> lies outside the interval \<open>[lo, hi]\<close>.
\<close>

definition violation :: "real \<Rightarrow> real \<Rightarrow> real \<Rightarrow> real" where
  "violation lo hi v = (if v < lo then lo - v else 0) + (if v > hi then v - hi else 0)"

section \<open>The weights at an interface\<close>

text \<open>
  Not from the code: quantities in which the bound on the time step of the positivity
  theorem is stated. The interface value is the mean of the two rows at the interface
  with the weights \<open>w = D* \<alpha>\<close> of their layers; \<open>weight_excess w w'\<close> is the relative
  amount by which the weight \<open>w'\<close> of the neighbouring layer exceeds the weight \<open>w\<close> of
  the layer itself (0 when it does not), and the excess of a layer is the largest one
  over its interfaces. It is below 1 for positive weights.
\<close>

definition weight_excess :: "real \<Rightarrow> real \<Rightarrow> real" where
  "weight_excess w w' = max 0 ((w' - w) / (w + w'))"

definition excess_sr :: "param_struct_type \<Rightarrow> real" where
  "excess_sr P = weight_excess (dstar_sr P * alpha_sr P) (dstar_sp P * alpha_sp P)"

definition excess_sp :: "param_struct_type \<Rightarrow> real" where
  "excess_sp P = max (weight_excess (dstar_sp P * alpha_sp P) (dstar_sr P * alpha_sr P))
                     (weight_excess (dstar_sp P * alpha_sp P) (dstar_so P * alpha_so P))"

definition excess_so :: "param_struct_type \<Rightarrow> real" where
  "excess_so P = weight_excess (dstar_so P * alpha_so P) (dstar_sp P * alpha_sp P)"

section \<open>Loop and index lemmas\<close>

lemma for_loop_empty: "hi \<le> lo \<Longrightarrow> for_loop lo hi body s0 = s0"
  by (simp add: for_loop_def)

lemma for_loop_first: "lo < hi \<Longrightarrow> for_loop lo hi body s0 = for_loop (lo + 1) hi body (body lo s0)"
  by (simp add: for_loop_def upto_rec1)

lemma for_loop_last: "lo < hi \<Longrightarrow> for_loop lo hi body s0 = body (hi - 1) (for_loop lo (hi - 1) body s0)"
  by (simp add: for_loop_def upto_rec2)

text \<open>The invariant rule for a counted loop.\<close>

lemma for_loop_rule:
  assumes base: "P lo s0"
    and step: "\<And>k s. lo \<le> k \<Longrightarrow> k < hi \<Longrightarrow> P k s \<Longrightarrow> P (k + 1) (body k s)"
    and le: "lo \<le> hi"
  shows "P hi (for_loop lo hi body s0)"
proof -
  have upto: "P (lo + int n) (for_loop lo (lo + int n) body s0) \<or> hi < lo + int n" for n
  proof (induction n)
    case 0
    then show ?case using base by (simp add: for_loop_empty)
  next
    case (Suc n)
    show ?case
    proof (cases "hi < lo + int (Suc n)")
      case True
      then show ?thesis by simp
    next
      case False
      then have lt: "lo + int n < hi" by simp
      with Suc have p: "P (lo + int n) (for_loop lo (lo + int n) body s0)" by simp
      have "for_loop lo (lo + int (Suc n)) body s0
            = body (lo + int n) (for_loop lo (lo + int n) body s0)"
        using for_loop_last [of lo "lo + int (Suc n)" body s0] by (simp add: algebra_simps)
      moreover have "P (lo + int n + 1) (body (lo + int n) (for_loop lo (lo + int n) body s0))"
        using step [OF _ lt p] by simp
      ultimately show ?thesis by (simp add: algebra_simps)
    qed
  qed
  from upto [of "nat (hi - lo)"] le show ?thesis by simp
qed

text \<open>A loop of point updates leaves every cell it does not address unchanged.\<close>

lemma for_loop_miss:
  assumes "\<And>k. lo \<le> k \<Longrightarrow> k < hi \<Longrightarrow> f k \<noteq> x"
  shows "for_loop lo hi (\<lambda>k out. out(f k := g k out)) (out :: darray) x = out x"
proof (cases "lo \<le> hi")
  case True
  show ?thesis
    by (rule for_loop_rule [where P = "\<lambda>k s. s x = out x", OF _ _ True]) (use assms in auto)
next
  case False
  then show ?thesis by (simp add: for_loop_empty)
qed

text \<open>A loop of point updates at pairwise distinct cells, each value computed from the
  old content of its own cell only.\<close>

text \<open>A loop of point updates at pairwise distinct cells, each value computed from the
  old content of its own cell only.\<close>

lemma for_loop_hit:
  assumes inj: "\<And>k'. lo \<le> k' \<Longrightarrow> k' < hi \<Longrightarrow> f k' = f k \<Longrightarrow> k' = k"
    and k: "lo \<le> k" "k < hi"
  shows "for_loop lo hi (\<lambda>k out. out(f k := h k (out (f k)))) (out :: darray) (f k) = h k (out (f k))"
proof -
  let ?body = "\<lambda>k out. out(f k := h k (out (f k)))"
  let ?P = "\<lambda>n (s :: darray). s (f k) = (if k < n then h k (out (f k)) else out (f k))"
  have "?P hi (for_loop lo hi ?body out)"
  proof (rule for_loop_rule [where P = ?P])
    show "?P lo out" using k by simp
  next
    fix n s assume n: "lo \<le> n" "n < hi" and p: "?P n s"
    show "?P (n + 1) (?body n s)"
    proof (cases "n = k")
      case True
      with p show ?thesis by simp
    next
      case False
      then have "f n \<noteq> f k" using inj [OF n] by blast
      moreover have "k < n + 1 \<longleftrightarrow> k < n" using False by linarith
      ultimately show ?thesis using p by simp
    qed
  next
    show "lo \<le> hi" using k by simp
  qed
  with k show ?thesis by simp
qed

lemma cidx_eq_iff:
  assumes "0 \<le> j" "j < N" "0 \<le> j'" "j' < N"
  shows "cidx N i j = cidx N i' j' \<longleftrightarrow> i = i' \<and> j = j'"
proof
  assume eq: "cidx N i j = cidx N i' j'"
  then have "(i - i') * N = j' - j" by (simp add: cidx_def algebra_simps)
  moreover have "\<bar>j' - j\<bar> < N" using assms by linarith
  ultimately have "\<bar>(i - i') * N\<bar> < N" by simp
  then have "\<bar>i - i'\<bar> * N < 1 * N" using assms by (simp add: abs_mult)
  then have "\<bar>i - i'\<bar> < 1" using assms by (simp add: mult_less_cancel_right)
  then have "i = i'" by simp
  with eq show "i = i' \<and> j = j'" by (simp add: cidx_def)
qed simp

lemma row_modify_at:
  assumes j: "0 \<le> j" "j < N" and rng: "0 \<le> lo" "hi \<le> N"
  shows "for_loop lo hi (\<lambda>j out. out(cidx N r j := h j (out (cidx N r j)))) (out :: darray) (cidx N i j)
         = (if i = r \<and> lo \<le> j \<and> j < hi then h j (out (cidx N r j)) else out (cidx N i j))"
proof (cases "i = r \<and> lo \<le> j \<and> j < hi")
  case True
  then have "for_loop lo hi (\<lambda>j out. out(cidx N r j := h j (out (cidx N r j)))) out (cidx N r j)
             = h j (out (cidx N r j))"
    using j rng by (intro for_loop_hit [where f = "\<lambda>j. cidx N r j"]) (auto simp: cidx_eq_iff)
  with True show ?thesis by simp
next
  case False
  have "for_loop lo hi (\<lambda>j out. out(cidx N r j := h j (out (cidx N r j)))) out (cidx N i j)
        = out (cidx N i j)"
  proof (rule for_loop_miss)
    fix k assume "lo \<le> k" "k < hi"
    with False j rng show "cidx N r k \<noteq> cidx N i j" by (auto simp: cidx_eq_iff)
  qed
  with False show ?thesis by auto
qed

lemma row_write_at:
  assumes "0 \<le> j" "j < N" "0 \<le> lo" "hi \<le> N"
  shows "for_loop lo hi (\<lambda>j out. out(cidx N r j := g j)) (out :: darray) (cidx N i j)
         = (if i = r \<and> lo \<le> j \<and> j < hi then g j else out (cidx N i j))"
  using row_modify_at [OF assms, where h = "\<lambda>j _. g j"] by simp

lemma col_modify_at:
  assumes j: "0 \<le> j" "j < N" and c: "0 \<le> col" "col < N"
  shows "for_loop lo hi (\<lambda>i out. out(cidx N i col := h i (out (cidx N i col)))) (out :: darray) (cidx N i j)
         = (if j = col \<and> lo \<le> i \<and> i < hi then h i (out (cidx N i col)) else out (cidx N i j))"
proof (cases "j = col \<and> lo \<le> i \<and> i < hi")
  case True
  then have "for_loop lo hi (\<lambda>i out. out(cidx N i col := h i (out (cidx N i col)))) out (cidx N i col)
             = h i (out (cidx N i col))"
    using c by (intro for_loop_hit [where f = "\<lambda>i. cidx N i col"]) (auto simp: cidx_eq_iff)
  with True show ?thesis by simp
next
  case False
  have "for_loop lo hi (\<lambda>i out. out(cidx N i col := h i (out (cidx N i col)))) out (cidx N i j)
        = out (cidx N i j)"
  proof (rule for_loop_miss)
    fix k assume "lo \<le> k" "k < hi"
    with False j c show "cidx N k col \<noteq> cidx N i j" by (auto simp: cidx_eq_iff)
  qed
  with False show ?thesis by auto
qed

lemma col_write_at:
  assumes "0 \<le> j" "j < N" "0 \<le> col" "col < N"
  shows "for_loop lo hi (\<lambda>i out. out(cidx N i col := g i)) (out :: darray) (cidx N i j)
         = (if j = col \<and> lo \<le> i \<and> i < hi then g i else out (cidx N i j))"
  using col_modify_at [OF assms, where h = "\<lambda>i _. g i"] by simp

lemma point_write_at:
  assumes "0 \<le> j" "j < N" "0 \<le> col" "col < N"
  shows "((out :: darray)(cidx N r col := v)) (cidx N i j) = (if i = r \<and> j = col then v else out (cidx N i j))"
  using assms by (simp add: cidx_eq_iff)

lemma grid_write_at:
  assumes j: "0 \<le> j" "j < N" and rng: "0 \<le> lo'" "hi' \<le> N"
  shows "for_loop lo hi (\<lambda>i. for_loop lo' hi' (\<lambda>j out. out(cidx N i j := g i j))) (out :: darray) (cidx N i j)
         = (if lo \<le> i \<and> i < hi \<and> lo' \<le> j \<and> j < hi' then g i j else out (cidx N i j))"
proof (cases "lo \<le> hi")
  case True
  let ?P = "\<lambda>n (s :: darray). s (cidx N i j)
              = (if lo \<le> i \<and> i < n \<and> lo' \<le> j \<and> j < hi' then g i j else out (cidx N i j))"
  have "?P hi (for_loop lo hi (\<lambda>i. for_loop lo' hi' (\<lambda>j out. out(cidx N i j := g i j))) out)"
  proof (rule for_loop_rule [where P = ?P, OF _ _ True])
    show "?P lo out" by simp
  next
    fix n s assume n: "lo \<le> n" "n < hi" and p: "?P n s"
    have "i < n + 1 \<longleftrightarrow> i < n \<or> i = n" by linarith
    with n p show "?P (n + 1) (for_loop lo' hi' (\<lambda>j out. out(cidx N n j := g n j)) s)"
      by (auto simp: row_write_at [OF j rng])
  qed
  then show ?thesis by simp
next
  case False
  then show ?thesis by (simp add: for_loop_empty)
qed

section \<open>The stencil, cell by cell\<close>

text \<open>Each group of assignments, read at an arbitrary cell of the output.\<close>

lemma conv_inner_at:
  assumes "0 \<le> j" "j < N"
  shows "conv_inner M N a scale1 scale2 ir out (cidx N i j)
         = (if 1 \<le> i \<and> i < M - 1 \<and> 2 \<le> j \<and> j < N - 1
            then scale1 * (a (cidx N (i - 1) j)
                   + a (cidx N i (j - 1)) - 4 * a (cidx N i j) + a (cidx N i (j + 1))
                   + a (cidx N (i + 1) j))
                 + scale2 * ((- a (cidx N i (j - 1)) + a (cidx N i (j + 1))) * ir j)
            else out (cidx N i j))"
  unfolding conv_inner_def using assms by (subst grid_write_at) simp_all

lemma conv_axis_at:
  assumes "0 \<le> j" "j < N" "1 < N"
  shows "conv_axis M N a scale1 out (cidx N i j)
         = (if j = 1 \<and> 1 \<le> i \<and> i < M - 1
            then scale1 * (a (cidx N (i - 1) 1)
                   + 2 * a (cidx N i 0) - 6 * a (cidx N i 1) + 2 * a (cidx N i 2)
                   + a (cidx N (i + 1) 1))
            else out (cidx N i j))"
  unfolding conv_axis_def using assms by (subst col_write_at) simp_all

lemma conv_axis_first_at:
  assumes "0 \<le> j" "j < N" "1 < N"
  shows "conv_axis_first M N a scale1 out (cidx N i j)
         = (if i = 0 \<and> j = 1
            then scale1 * (2 * a (cidx N 0 0) - 6 * a (cidx N 0 1) + 2 * a (cidx N 0 2)
                 + a (cidx N 1 1))
            else out (cidx N i j))"
  unfolding conv_axis_first_def using assms by (subst point_write_at) simp_all

lemma conv_axis_last_at:
  assumes "0 \<le> j" "j < N" "1 < N"
  shows "conv_axis_last M N a scale1 out (cidx N i j)
         = (if i = M - 1 \<and> j = 1
            then scale1 * (a (cidx N (M - 2) 1)
                 + 2 * a (cidx N (M - 1) 0) - 6 * a (cidx N (M - 1) 1) + 2 * a (cidx N (M - 1) 2))
            else out (cidx N i j))"
  unfolding conv_axis_last_def using assms by (subst point_write_at) simp_all

lemma conv_row_first_at:
  assumes "0 \<le> j" "j < N"
  shows "conv_row_first M N a scale1 scale2 ir out (cidx N i j)
         = (if i = 0 \<and> 1 \<le> j \<and> j < N - 1
            then scale1 * (a (cidx N 0 (j - 1)) - 4 * a (cidx N 0 j) + a (cidx N 0 (j + 1))
                   + a (cidx N 1 j))
                 + scale2 * ((- a (cidx N 0 (j - 1)) + a (cidx N 0 (j + 1))) * ir j)
            else out (cidx N i j))"
  unfolding conv_row_first_def using assms by (subst row_write_at) simp_all

lemma conv_row_last_at:
  assumes "0 \<le> j" "j < N"
  shows "conv_row_last M N a scale1 scale2 ir out (cidx N i j)
         = (if i = M - 1 \<and> 1 \<le> j \<and> j < N - 1
            then scale1 * (a (cidx N (M - 2) j)
                   + a (cidx N (M - 1) (j - 1)) - 4 * a (cidx N (M - 1) j) + a (cidx N (M - 1) (j + 1)))
                 + scale2 * ((- a (cidx N (M - 1) (j - 1)) + a (cidx N (M - 1) (j + 1))) * ir j)
            else out (cidx N i j))"
  unfolding conv_row_last_def using assms by (subst row_write_at) simp_all

lemma conv_col_first_at:
  assumes "0 \<le> j" "j < N"
  shows "conv_col_first M N a scale1 scale2 ir out (cidx N i j)
         = (if j = 0 \<and> 1 \<le> i \<and> i < M - 1
            then scale1 * (a (cidx N (i - 1) 0)
                   - 4 * a (cidx N i 0) + a (cidx N i 1)
                   + a (cidx N (i + 1) 0))
                 + scale2 * (a (cidx N i 1) * ir 0)
            else out (cidx N i j))"
  unfolding conv_col_first_def using assms by (subst col_write_at) simp_all

lemma conv_col_last_at:
  assumes "0 \<le> j" "j < N"
  shows "conv_col_last M N a scale1 scale2 ir out (cidx N i j)
         = (if j = N - 1 \<and> 1 \<le> i \<and> i < M - 1
            then scale1 * (a (cidx N (i - 1) (N - 1))
                   + a (cidx N i (N - 2)) - 4 * a (cidx N i (N - 1))
                   + a (cidx N (i + 1) (N - 1)))
                 + scale2 * (- a (cidx N i (N - 2)) * ir (N - 1))
            else out (cidx N i j))"
  unfolding conv_col_last_def using assms by (subst col_write_at) simp_all

lemma conv_corners_miss:
  assumes "0 \<le> j" "j < N" "(0 < i \<and> i < M - 1) \<or> (0 < j \<and> j < N - 1)"
  shows "conv_corners M N a scale1 scale2 ir out (cidx N i j) = out (cidx N i j)"
  using assms by (auto simp: conv_corners_def Let_def cidx_eq_iff)

lemmas conv_stage_at = conv_inner_at conv_axis_at conv_axis_first_at conv_axis_last_at
  conv_row_first_at conv_row_last_at conv_col_first_at conv_col_last_at conv_corners_miss

text \<open>The output of the whole function at the cells of each region.\<close>

lemma convolve3_interior:
  assumes "1 \<le> i" "i \<le> M - 2" "2 \<le> j" "j \<le> N - 2"
  shows "convolve3 M N a scale1 scale2 ir out (cidx N i j)
         = scale1 * (a (cidx N (i - 1) j)
                   + a (cidx N i (j - 1)) - 4 * a (cidx N i j) + a (cidx N i (j + 1))
                   + a (cidx N (i + 1) j))
           + scale2 * ((- a (cidx N i (j - 1)) + a (cidx N i (j + 1))) * ir j)"
  using assms by (simp add: convolve3_def Let_def conv_stage_at)

lemma convolve3_axis:
  assumes "1 \<le> i" "i \<le> M - 2" "3 \<le> N"
  shows "convolve3 M N a scale1 scale2 ir out (cidx N i 1)
         = scale1 * (a (cidx N (i - 1) 1)
                   + 2 * a (cidx N i 0) - 6 * a (cidx N i 1) + 2 * a (cidx N i 2)
                   + a (cidx N (i + 1) 1))"
  using assms by (simp add: convolve3_def Let_def conv_stage_at)

lemma convolve3_col_last:
  assumes "1 \<le> i" "i \<le> M - 2" "3 \<le> N"
  shows "convolve3 M N a scale1 scale2 ir out (cidx N i (N - 1))
         = scale1 * (a (cidx N (i - 1) (N - 1))
                   + a (cidx N i (N - 2)) - 4 * a (cidx N i (N - 1))
                   + a (cidx N (i + 1) (N - 1)))
                 + scale2 * (- a (cidx N i (N - 2)) * ir (N - 1))"
  using assms by (simp add: convolve3_def Let_def conv_stage_at)

lemma convolve3_row_first:
  assumes "2 \<le> M" "1 \<le> j" "j \<le> N - 2"
  shows "convolve3 M N a scale1 scale2 ir out (cidx N 0 j)
         = scale1 * (a (cidx N 0 (j - 1)) - 4 * a (cidx N 0 j) + a (cidx N 0 (j + 1))
                   + a (cidx N 1 j))
                 + scale2 * ((- a (cidx N 0 (j - 1)) + a (cidx N 0 (j + 1))) * ir j)"
  using assms by (simp add: convolve3_def Let_def conv_stage_at)

lemma convolve3_row_last:
  assumes "2 \<le> M" "1 \<le> j" "j \<le> N - 2"
  shows "convolve3 M N a scale1 scale2 ir out (cidx N (M - 1) j)
         = scale1 * (a (cidx N (M - 2) j)
                   + a (cidx N (M - 1) (j - 1)) - 4 * a (cidx N (M - 1) j) + a (cidx N (M - 1) (j + 1)))
                 + scale2 * ((- a (cidx N (M - 1) (j - 1)) + a (cidx N (M - 1) (j + 1))) * ir j)"
  using assms by (simp add: convolve3_def Let_def conv_stage_at)

lemma convolve3_corner_first_last:
  assumes "2 \<le> M" "3 \<le> N"
  shows "convolve3 M N a scale1 scale2 ir out (cidx N 0 (N - 1))
         = scale1 * (a (cidx N 0 (N - 2)) - 4 * a (cidx N 0 (N - 1))
                      + a (cidx N 1 (N - 1)))
            + scale2 * (- a (cidx N 0 (N - 2)) * ir (N - 1))"
  using assms by (simp add: convolve3_def Let_def conv_corners_def cidx_eq_iff)

lemma convolve3_corner_last_last:
  assumes "2 \<le> M" "3 \<le> N"
  shows "convolve3 M N a scale1 scale2 ir out (cidx N (M - 1) (N - 1))
         = scale1 * (a (cidx N (M - 2) (N - 1))
                      + a (cidx N (M - 1) (N - 2)) - 4 * a (cidx N (M - 1) (N - 1)))
            + scale2 * (- a (cidx N (M - 1) (N - 2)) * ir (N - 1))"
  using assms by (simp add: convolve3_def Let_def conv_corners_def cidx_eq_iff)

lemma convolve3_corner_first_first:
  assumes "2 \<le> M" "3 \<le> N"
  shows "convolve3 M N a scale1 scale2 ir out (cidx N 0 0)
         = scale1 * (- 4 * a (cidx N 0 0) + a (cidx N 0 1)
                      + a (cidx N 1 0))
            + scale2 * (a (cidx N 0 1) * ir 0)"
  using assms by (simp add: convolve3_def Let_def conv_corners_def cidx_eq_iff)




section \<open>Blocks and column sweeps\<close>

lemma INDEX_cidx: "INDEX n i j = cidx (n + 1) i j"
  by (simp add: INDEX_def cidx_def)

lemma cidx_in_block:
  assumes "0 \<le> i" "i < M" "0 \<le> j" "j < N"
  shows "0 \<le> cidx N i j" "cidx N i j < M * N"
proof -
  have "0 \<le> i * N" using assms by simp
  then show "0 \<le> cidx N i j" using assms by (simp add: cidx_def)
  have "i + 1 \<le> M" using assms by simp
  then have "(i + 1) * N \<le> M * N" using assms by (intro mult_right_mono) auto
  then show "cidx N i j < M * N" using assms by (simp add: cidx_def algebra_simps)
qed

text \<open>A loop over the whole block that rewrites each element from its old content.\<close>

lemma block_modify_at:
  assumes "0 \<le> k" "k < n"
  shows "for_loop 0 n (\<lambda>i x. x(i := h i (x i))) (x0 :: darray) k = h k (x0 k)"
  by (rule for_loop_hit [where f = "\<lambda>i. i"]) (use assms in auto)

text \<open>A loop over the columns whose turn \<open>j\<close> rewrites cells of column \<open>j\<close> only, each
  from its old content.\<close>

lemma column_sweep:
  assumes other: "\<And>k x i j. 0 \<le> k \<Longrightarrow> k < N \<Longrightarrow> 0 \<le> j \<Longrightarrow> j < N \<Longrightarrow> j \<noteq> k
                    \<Longrightarrow> G k x (cidx N i j) = x (cidx N i j)"
    and own: "\<And>k x i. 0 \<le> k \<Longrightarrow> k < N \<Longrightarrow> G k x (cidx N i k) = H i k (x (cidx N i k))"
    and j: "0 \<le> j" "j < N"
  shows "for_loop 0 N G (x0 :: darray) (cidx N i j) = H i j (x0 (cidx N i j))"
proof -
  let ?P = "\<lambda>n (x :: darray). \<forall>i j. 0 \<le> j \<and> j < N \<longrightarrow>
              x (cidx N i j) = (if j < n then H i j (x0 (cidx N i j)) else x0 (cidx N i j))"
  have "?P N (for_loop 0 N G x0)"
  proof (rule for_loop_rule [where P = ?P])
    show "?P 0 x0" by simp
  next
    fix n x assume n: "0 \<le> n" "n < N" and inv: "?P n x"
    show "?P (n + 1) (G n x)"
    proof (intro allI impI)
      fix i j assume j: "0 \<le> j \<and> j < N"
      show "G n x (cidx N i j) = (if j < n + 1 then H i j (x0 (cidx N i j)) else x0 (cidx N i j))"
      proof (cases "j = n")
        case True
        then show ?thesis using own [OF n, of x i] inv j by simp
      next
        case False
        then have "G n x (cidx N i j) = x (cidx N i j)" using other [OF n, of j x i] j by simp
        moreover have "j < n + 1 \<longleftrightarrow> j < n" using False by linarith
        ultimately show ?thesis using inv j by simp
      qed
    qed
  next
    show "0 \<le> N" using j by simp
  qed
  with j show ?thesis by simp
qed

section \<open>The array of 1/r values\<close>

lemma invr_array_at:
  "invr_array n d 0 = 1 / d"
  "invr_array n d 1 = 0"
  "2 \<le> j \<Longrightarrow> j \<le> n \<Longrightarrow> invr_array n d j = 1 / ((real_of_int j - 1) * d)"
proof -
  have miss: "for_loop 2 (n + 1) (\<lambda>j x. x(j := 1 / ((real_of_int j - 1) * d))) y k = y k"
    if "k < 2" for k and y :: darray
    by (rule for_loop_miss) (use that in auto)
  show "invr_array n d 0 = 1 / d" "invr_array n d 1 = 0"
    by (simp_all add: invr_array_def Let_def miss)
  assume j: "2 \<le> j" "j \<le> n"
  have "for_loop 2 (n + 1) (\<lambda>j x. x(j := (\<lambda>j _. 1 / ((real_of_int j - 1) * d)) j (x j))) y j
        = 1 / ((real_of_int j - 1) * d)" for y :: darray
    by (rule for_loop_hit [where f = "\<lambda>k. k"]) (use j in auto)
  then show "invr_array n d j = 1 / ((real_of_int j - 1) * d)"
    by (simp add: invr_array_def Let_def)
qed




section \<open>The stages of a time step\<close>

lemma for_loop_snoc: "lo \<le> n \<Longrightarrow> for_loop lo (n + 1) body s0 = body n (for_loop lo n body s0)"
  using for_loop_last [of lo "n + 1" body s0] by simp

lemma col_scale_at:
  assumes "0 \<le> j" "j < N" "0 \<le> col" "col < N"
  shows "for_loop lo hi (\<lambda>i out. out(cidx N i col := out (cidx N i col) * f)) (out :: darray) (cidx N i j)
         = (if j = col \<and> lo \<le> i \<and> i < hi then out (cidx N i col) * f else out (cidx N i j))"
  using col_modify_at [OF assms, where h = "\<lambda>_ v. v * f"] by simp

lemma block_add_at:
  assumes "0 \<le> k" "k < n"
  shows "for_loop 0 n (\<lambda>i x. x(i := x i + d i)) (x0 :: darray) k = x0 k + d k"
  using block_modify_at [OF assms, where h = "\<lambda>i v. v + d i"] by simp

lemma block_copy_at:
  assumes "0 \<le> k" "k < n"
  shows "for_loop 0 n (\<lambda>i x. x(i := d i)) (x0 :: darray) k = d k"
  using block_modify_at [OF assms, where h = "\<lambda>i v. d i"] by simp

lemma mirror_axis_at:
  assumes nr: "2 \<le> nr P" and j: "0 \<le> j" "j \<le> nr P"
  shows "c (mirror_axis P S) (INDEX (nr P) i j)
         = (if j = 0 \<and> 0 \<le> i \<and> i < nz P then c S (INDEX (nr P) i 2) else c S (INDEX (nr P) i j))"
proof (cases "0 \<le> nz P")
  case True
  let ?N = "nr P + 1"
  let ?body = "\<lambda>i (x :: darray). x(cidx ?N i 0 := x (cidx ?N i 2))"
  let ?Q = "\<lambda>n (x :: darray). \<forall>i j. 0 \<le> j \<and> j < ?N \<longrightarrow>
              x (cidx ?N i j) = (if j = 0 \<and> 0 \<le> i \<and> i < n then c S (cidx ?N i 2) else c S (cidx ?N i j))"
  have "?Q (nz P) (for_loop 0 (nz P) ?body (c S))"
  proof (rule for_loop_rule [where P = ?Q, OF _ _ True])
    show "?Q 0 (c S)" by simp
  next
    fix n x assume n: "0 \<le> n" "n < nz P" and inv: "?Q n x"
    show "?Q (n + 1) (?body n x)"
    proof (intro allI impI)
      fix i j assume j: "0 \<le> j \<and> j < ?N"
      have two: "x (cidx ?N n 2) = c S (cidx ?N n 2)" using inv nr by simp
      have "i < n + 1 \<longleftrightarrow> i < n \<or> i = n" by linarith
      then show "?body n x (cidx ?N i j)
            = (if j = 0 \<and> 0 \<le> i \<and> i < n + 1 then c S (cidx ?N i 2) else c S (cidx ?N i j))"
        using j nr n inv two by (auto simp: cidx_eq_iff)
    qed
  qed
  with j show ?thesis by (simp add: mirror_axis_def INDEX_cidx)
next
  case False
  then show ?thesis by (simp add: mirror_axis_def for_loop_empty)
qed

lemma mirror_axis_other [simp]:
  "p (mirror_axis P S) = p S"
  by (simp add: mirror_axis_def)

lemma clearance_at:
  assumes j: "0 \<le> j" "j \<le> nr P" and i: "0 \<le> i" "i < nz P" and iz: "iz1 P \<le> iz2 P"
  shows "c (clearance P S) (INDEX (nr P) i j)
         = c S (INDEX (nr P) i j)
           * (1 - (if i \<le> iz1 P then kappa_sr P else if i \<le> iz2 P then kappa_sp P else kappa_so P) * dt P)"
proof -
  let ?N = "nr P + 1"
  let ?G = "\<lambda>j x.
       (let x = for_loop 0 (iz1 P + 1) (\<lambda>i x.
                  x(cidx ?N i j := x (cidx ?N i j) * (1 - kappa_sr P * dt P))) x;
            x = for_loop (iz1 P + 1) (iz2 P + 1) (\<lambda>i x.
                  x(cidx ?N i j := x (cidx ?N i j) * (1 - kappa_sp P * dt P))) x;
            x = for_loop (iz2 P + 1) (nz P) (\<lambda>i x.
                  x(cidx ?N i j := x (cidx ?N i j) * (1 - kappa_so P * dt P))) x
        in x)"
  let ?H = "\<lambda>i (j :: int) v.
       (let v = (if 0 \<le> i \<and> i < iz1 P + 1 then v * (1 - kappa_sr P * dt P) else v);
            v = (if iz1 P + 1 \<le> i \<and> i < iz2 P + 1 then v * (1 - kappa_sp P * dt P) else v);
            v = (if iz2 P + 1 \<le> i \<and> i < nz P then v * (1 - kappa_so P * dt P) else v)
        in v)"
  have "for_loop 0 ?N ?G (c S) (cidx ?N i j) = ?H i j (c S (cidx ?N i j))"
  proof (rule column_sweep [where H = ?H])
    fix k x i j assume "0 \<le> k" "k < ?N" "0 \<le> j" "j < ?N" "j \<noteq> k"
    then show "?G k x (cidx ?N i j) = x (cidx ?N i j)"
      by (simp add: Let_def col_scale_at)
  next
    fix k x i assume "0 \<le> k" "k < ?N"
    then show "?G k x (cidx ?N i k) = ?H i k (x (cidx ?N i k))"
      by (simp add: Let_def col_scale_at)
  qed (use j in auto)
  then show ?thesis using i iz by (simp add: clearance_def INDEX_cidx Let_def)
qed

lemma clearance_other [simp]:
  "p (clearance P S) = p S"
  by (simp add: clearance_def)

lemma add_source_at:
  assumes "0 \<le> j" "j \<le> nr P" "0 \<le> i" "i < nz P"
  shows "c (add_source P k S) (INDEX (nr P) i j)
         = c S (INDEX (nr P) i j) + (if t P k + dt P / 2 < sd P + st P then s P (INDEX (nr P) i j) else 0)"
  using cidx_in_block [of i "nz P" j "nr P + 1"] assms
  by (simp add: add_source_def INDEX_cidx block_add_at)

lemma add_source_other [simp]:
  "p (add_source P k S) = p S"
  by (simp add: add_source_def)

lemma nolayer_branch_at:
  assumes "0 \<le> j" "j \<le> nr P" "0 \<le> i" "i < nz P"
  shows "c (nolayer_branch P S) (INDEX (nr P) i j)
         = c S (INDEX (nr P) i j)
           + convolve3 (nz P) (nr P + 1) (c S) (const_sr1 P) (const_sr2 P) (invr P) (dc S)
               (INDEX (nr P) i j)"
  using cidx_in_block [of i "nz P" j "nr P + 1"] assms
  by (simp add: nolayer_branch_def Let_def INDEX_cidx block_add_at)

lemma nolayer_branch_other [simp]:
  "p (nolayer_branch P S) = p S"
  by (simp add: nolayer_branch_def Let_def)


text \<open>
  The loops of the 3-layer branch run over the record of arrays; each is the record with
  the loop run on the fields it writes.
\<close>

lemma interface_values_eq:
  "interface_values P S =
     S\<lparr>cb_sr := for_loop 0 (nr P + 1) (\<lambda>j x. x(j :=
                  (dstar_sr P * alpha_sr P * c S (INDEX (nr P) (iz1 P) j)
                   + dstar_sp P * alpha_sp P * c S (INDEX (nr P) (iz1 P + 1) j))
                  / (dstar_sr P * alpha_sr P + dstar_sp P * alpha_sp P))) (cb_sr S),
       cb_so := for_loop 0 (nr P + 1) (\<lambda>j x. x(j :=
                  (dstar_sp P * alpha_sp P * c S (INDEX (nr P) (iz2 P) j)
                   + dstar_so P * alpha_so P * c S (INDEX (nr P) (iz2 P + 1) j))
                  / (dstar_sp P * alpha_sp P + dstar_so P * alpha_so P))) (cb_so S)\<rparr>"
  (is "_ = ?R (nr P + 1)")
proof (cases "0 \<le> nr P + 1")
  case True
  show ?thesis unfolding interface_values_def
    by (rule for_loop_rule [where P = "\<lambda>n S'. S' = ?R n", OF _ _ True])
       (simp_all add: for_loop_empty for_loop_snoc Let_def del: fun_upd_apply)
next
  case False
  then show ?thesis by (simp add: interface_values_def for_loop_empty)
qed

lemma split_layers_eq:
  "split_layers P S =
     S\<lparr>c_sr := for_loop 0 (nr P + 1) (\<lambda>j x.
                 (for_loop 0 (iz1 P + 1) (\<lambda>i x.
                    x(INDEX (nr P) i j := c S (INDEX (nr P) i j))) x)
                 (INDEX (nr P) (iz1 P + 1) j := 2 * cb_sr S j - c S (INDEX (nr P) (iz1 P) j))) (c_sr S),
       c_sp := for_loop 0 (nr P + 1) (\<lambda>j x.
                 (for_loop (iz1 P + 1) (iz2 P + 1) (\<lambda>i x.
                    x(INDEX (nr P) (i - iz1 P) j := c S (INDEX (nr P) i j)))
                    (x(INDEX (nr P) 0 j := 2 * cb_sr S j - c S (INDEX (nr P) (iz1 P + 1) j))))
                 (INDEX (nr P) (iz2 P - iz1 P + 1) j := 2 * cb_so S j - c S (INDEX (nr P) (iz2 P) j))) (c_sp S),
       c_so := for_loop 0 (nr P + 1) (\<lambda>j x.
                 for_loop (iz2 P + 1) (nz P) (\<lambda>i x.
                    x(INDEX (nr P) (i - iz2 P) j := c S (INDEX (nr P) i j)))
                    (x(INDEX (nr P) 0 j := 2 * cb_so S j - c S (INDEX (nr P) (iz2 P + 1) j)))) (c_so S)\<rparr>"
  (is "_ = ?R (nr P + 1)")
proof (cases "0 \<le> nr P + 1")
  case True
  show ?thesis unfolding split_layers_def
    by (rule for_loop_rule [where P = "\<lambda>n S'. S' = ?R n", OF _ _ True])
       (simp_all add: for_loop_empty for_loop_snoc Let_def del: fun_upd_apply)
next
  case False
  then show ?thesis by (simp add: split_layers_def for_loop_empty)
qed

lemma merge_layers_eq:
  "merge_layers P S =
     S\<lparr>c := for_loop 0 (nr P + 1) (\<lambda>j x.
              for_loop (iz2 P + 1) (nz P) (\<lambda>i x.
                  x(INDEX (nr P) i j := c_so S (INDEX (nr P) (i - iz2 P) j)
                                        + dc_so S (INDEX (nr P) (i - iz2 P) j)))
               (for_loop (iz1 P + 1) (iz2 P + 1) (\<lambda>i x.
                  x(INDEX (nr P) i j := c_sp S (INDEX (nr P) (i - iz1 P) j)
                                        + dc_sp S (INDEX (nr P) (i - iz1 P) j)))
                 (for_loop 0 (iz1 P + 1) (\<lambda>i x.
                  x(INDEX (nr P) i j := c_sr S (INDEX (nr P) i j)
                                        + dc_sr S (INDEX (nr P) i j))) x))) (c S)\<rparr>"
  (is "_ = ?R (nr P + 1)")
proof (cases "0 \<le> nr P + 1")
  case True
  show ?thesis unfolding merge_layers_def
    by (rule for_loop_rule [where P = "\<lambda>n S'. S' = ?R n", OF _ _ True])
       (simp_all add: for_loop_empty for_loop_snoc Let_def del: fun_upd_apply)
next
  case False
  then show ?thesis by (simp add: merge_layers_def for_loop_empty)
qed

lemma layer_branch_other [simp]:
  "p (layer_branch P S) = p S"
  by (simp add: layer_branch_def Let_def merge_layers_eq convolve_layers_def split_layers_eq
      interface_values_eq)



lemma col_write_shift_at:
  assumes j: "0 \<le> j" "j < N" and c: "0 \<le> col" "col < N"
  shows "for_loop lo hi (\<lambda>i out. out(cidx N (i - d) col := g i)) (out :: darray) (cidx N i j)
         = (if j = col \<and> lo \<le> i + d \<and> i + d < hi then g (i + d) else out (cidx N i j))"
proof (cases "j = col \<and> lo \<le> i + d \<and> i + d < hi")
  case True
  then have "for_loop lo hi (\<lambda>i out. out(cidx N (i - d) col := (\<lambda>i _. g i) i (out (cidx N (i - d) col))))
               out (cidx N ((i + d) - d) col) = g (i + d)"
    using c by (intro for_loop_hit [where f = "\<lambda>i. cidx N (i - d) col"]) (auto simp: cidx_eq_iff)
  with True show ?thesis by simp
next
  case False
  have "for_loop lo hi (\<lambda>i out. out(cidx N (i - d) col := g i)) out (cidx N i j) = out (cidx N i j)"
  proof (rule for_loop_miss)
    fix k assume "lo \<le> k" "k < hi"
    with False j c show "cidx N (k - d) col \<noteq> cidx N i j" by (auto simp: cidx_eq_iff)
  qed
  with False show ?thesis by auto
qed

lemma interface_values_other [simp]:
  "c (interface_values P S) = c S" "p (interface_values P S) = p S"
  "c_sr (interface_values P S) = c_sr S" "c_sp (interface_values P S) = c_sp S"
  "c_so (interface_values P S) = c_so S"
  "dc_sr (interface_values P S) = dc_sr S" "dc_sp (interface_values P S) = dc_sp S"
  "dc_so (interface_values P S) = dc_so S"
  by (simp_all add: interface_values_eq)

lemma interface_values_at:
  assumes "0 \<le> j" "j \<le> nr P"
  shows "cb_sr (interface_values P S) j
         = (dstar_sr P * alpha_sr P * c S (INDEX (nr P) (iz1 P) j)
            + dstar_sp P * alpha_sp P * c S (INDEX (nr P) (iz1 P + 1) j))
           / (dstar_sr P * alpha_sr P + dstar_sp P * alpha_sp P)"
    and "cb_so (interface_values P S) j
         = (dstar_sp P * alpha_sp P * c S (INDEX (nr P) (iz2 P) j)
            + dstar_so P * alpha_so P * c S (INDEX (nr P) (iz2 P + 1) j))
           / (dstar_sp P * alpha_sp P + dstar_so P * alpha_so P)"
  using assms by (simp_all add: interface_values_eq block_copy_at)

lemma split_layers_other [simp]:
  "c (split_layers P S) = c S" "p (split_layers P S) = p S"
  "cb_sr (split_layers P S) = cb_sr S" "cb_so (split_layers P S) = cb_so S"
  "dc_sr (split_layers P S) = dc_sr S" "dc_sp (split_layers P S) = dc_sp S"
  "dc_so (split_layers P S) = dc_so S"
  by (simp_all add: split_layers_eq)

lemma split_layers_sr_at:
  assumes j: "0 \<le> j" "j \<le> nr P"
  shows "c_sr (split_layers P S) (INDEX (nr P) i j)
         = (if i = iz1 P + 1 then 2 * cb_sr S j - c S (INDEX (nr P) (iz1 P) j)
            else if 0 \<le> i \<and> i \<le> iz1 P then c S (INDEX (nr P) i j)
            else c_sr S (INDEX (nr P) i j))"
proof -
  let ?N = "nr P + 1"
  let ?G = "\<lambda>j x. (for_loop 0 (iz1 P + 1) (\<lambda>i x.
                    x(cidx ?N i j := c S (cidx ?N i j))) x)
                 (cidx ?N (iz1 P + 1) j := 2 * cb_sr S j - c S (cidx ?N (iz1 P) j))"
  let ?H = "\<lambda>i j v. if i = iz1 P + 1 then 2 * cb_sr S j - c S (cidx ?N (iz1 P) j)
            else if 0 \<le> i \<and> i \<le> iz1 P then c S (cidx ?N i j) else v"
  have "for_loop 0 ?N ?G (c_sr S) (cidx ?N i j) = ?H i j (c_sr S (cidx ?N i j))"
  proof (rule column_sweep [where H = ?H])
    fix k x i j assume "0 \<le> k" "k < ?N" "0 \<le> j" "j < ?N" "j \<noteq> k"
    then show "?G k x (cidx ?N i j) = x (cidx ?N i j)"
      by (simp add: cidx_eq_iff col_write_at)
  next
    fix k x i assume "0 \<le> k" "k < ?N"
    then show "?G k x (cidx ?N i k) = ?H i k (x (cidx ?N i k))"
      by (simp add: cidx_eq_iff col_write_at)
  qed (use j in auto)
  then show ?thesis by (simp add: split_layers_eq INDEX_cidx)
qed

lemma split_layers_sp_at:
  assumes j: "0 \<le> j" "j \<le> nr P" and iz: "iz1 P \<le> iz2 P"
  shows "c_sp (split_layers P S) (INDEX (nr P) i j)
         = (if i = iz2 P - iz1 P + 1 then 2 * cb_so S j - c S (INDEX (nr P) (iz2 P) j)
            else if 1 \<le> i \<and> i \<le> iz2 P - iz1 P then c S (INDEX (nr P) (i + iz1 P) j)
            else if i = 0 then 2 * cb_sr S j - c S (INDEX (nr P) (iz1 P + 1) j)
            else c_sp S (INDEX (nr P) i j))"
proof -
  let ?N = "nr P + 1"
  let ?G = "\<lambda>j x. (for_loop (iz1 P + 1) (iz2 P + 1) (\<lambda>i x.
                    x(cidx ?N (i - iz1 P) j := c S (cidx ?N i j)))
                    (x(cidx ?N 0 j := 2 * cb_sr S j - c S (cidx ?N (iz1 P + 1) j))))
                 (cidx ?N (iz2 P - iz1 P + 1) j := 2 * cb_so S j - c S (cidx ?N (iz2 P) j))"
  let ?H = "\<lambda>i j v. if i = iz2 P - iz1 P + 1 then 2 * cb_so S j - c S (cidx ?N (iz2 P) j)
            else if 1 \<le> i \<and> i \<le> iz2 P - iz1 P then c S (cidx ?N (i + iz1 P) j)
            else if i = 0 then 2 * cb_sr S j - c S (cidx ?N (iz1 P + 1) j)
            else v"
  have "for_loop 0 ?N ?G (c_sp S) (cidx ?N i j) = ?H i j (c_sp S (cidx ?N i j))"
  proof (rule column_sweep [where H = ?H])
    fix k x i j assume "0 \<le> k" "k < ?N" "0 \<le> j" "j < ?N" "j \<noteq> k"
    then show "?G k x (cidx ?N i j) = x (cidx ?N i j)"
      by (simp add: cidx_eq_iff col_write_shift_at)
  next
    fix k x i assume "0 \<le> k" "k < ?N"
    then show "?G k x (cidx ?N i k) = ?H i k (x (cidx ?N i k))"
      using iz by (auto simp: cidx_eq_iff col_write_shift_at)
  qed (use j in auto)
  then show ?thesis by (simp add: split_layers_eq INDEX_cidx)
qed

lemma split_layers_so_at:
  assumes j: "0 \<le> j" "j \<le> nr P"
  shows "c_so (split_layers P S) (INDEX (nr P) i j)
         = (if 1 \<le> i \<and> i \<le> nz P - iz2 P - 1 then c S (INDEX (nr P) (i + iz2 P) j)
            else if i = 0 then 2 * cb_so S j - c S (INDEX (nr P) (iz2 P + 1) j)
            else c_so S (INDEX (nr P) i j))"
proof -
  let ?N = "nr P + 1"
  let ?G = "\<lambda>j x. for_loop (iz2 P + 1) (nz P) (\<lambda>i x.
                    x(cidx ?N (i - iz2 P) j := c S (cidx ?N i j)))
                    (x(cidx ?N 0 j := 2 * cb_so S j - c S (cidx ?N (iz2 P + 1) j)))"
  let ?H = "\<lambda>i j v. if 1 \<le> i \<and> i \<le> nz P - iz2 P - 1 then c S (cidx ?N (i + iz2 P) j)
            else if i = 0 then 2 * cb_so S j - c S (cidx ?N (iz2 P + 1) j)
            else v"
  have "for_loop 0 ?N ?G (c_so S) (cidx ?N i j) = ?H i j (c_so S (cidx ?N i j))"
  proof (rule column_sweep [where H = ?H])
    fix k x i j assume "0 \<le> k" "k < ?N" "0 \<le> j" "j < ?N" "j \<noteq> k"
    then show "?G k x (cidx ?N i j) = x (cidx ?N i j)"
      by (simp add: cidx_eq_iff col_write_shift_at)
  next
    fix k x i assume "0 \<le> k" "k < ?N"
    then show "?G k x (cidx ?N i k) = ?H i k (x (cidx ?N i k))"
      by (auto simp: cidx_eq_iff col_write_shift_at)
  qed (use j in auto)
  then show ?thesis by (simp add: split_layers_eq INDEX_cidx)
qed

section \<open>The initial state, the source array and the candidate\<close>

lemma small_config_fields:
  "nt small_config = 3" "nd small_config = 2" "nz small_config = 6" "nr small_config = 3"
  "iprobe small_config = 4" "jprobe small_config = 1" "iz1 small_config = 1" "iz2 small_config = 3"
  "nolayer small_config = 0" "opt_global_kappa small_config = 0"
  "dt small_config = 1" "dr small_config = 1" "sd small_config = 1" "st small_config = 1"
  "alpha_so small_config = 1 / 5" "theta_so small_config = 2 / 5" "kappa_so small_config = 1 / 100"
  "alpha_sp small_config = 1 / 10" "theta_sp small_config = 3 / 10" "kappa_sp small_config = 1 / 50"
  "alpha_sr small_config = 1 / 5" "theta_sr small_config = 2 / 5" "kappa_sr small_config = 0"
  "minalpha small_config = 1 / 20" "maxalpha small_config = 1 / 2"
  "mintheta small_config = 1 / 10" "maxtheta small_config = 1"
  "minkappa small_config = 0" "maxkappa small_config = 1 / 10"
  "dfree small_config = 1 / 10"
  "t small_config k = real_of_int k"
  "s small_config k = (if k = 9 then 1 else 0)"
  "invr small_config = invr_array 3 1"
  "p_data small_config k = 0"
  "p_model small_config = create_array"
  by (simp_all add: small_config_def INDEX_def)

lemma solver_init_c:
  assumes "0 \<le> k" "k < nz P * (nr P + 1)"
  shows "c (solver_init P p0) k = s P k"
  using block_copy_at [OF assms, of "s P" create_array] by (simp add: solver_init_def)

lemma alphas_array_at:
  assumes j: "0 \<le> j" "j \<le> n_r" and i: "0 \<le> i" "i < n_z" and iz: "z1 \<le> z2"
  shows "alphas_array n_z n_r z1 z2 a_sr a_sp a_so (INDEX n_r i j)
         = (if i \<le> z1 then a_sr else if i \<le> z2 then a_sp else a_so)"
proof -
  let ?N = "n_r + 1"
  let ?G = "\<lambda>j alphas.
       (let alphas = for_loop 0 (z1 + 1) (\<lambda>i x. x(cidx ?N i j := a_sr)) alphas;
            alphas = for_loop (z1 + 1) (z2 + 1) (\<lambda>i x. x(cidx ?N i j := a_sp)) alphas;
            alphas = for_loop (z2 + 1) n_z (\<lambda>i x. x(cidx ?N i j := a_so)) alphas
        in alphas)"
  let ?H = "\<lambda>i (j :: int) (v :: real).
       if z2 + 1 \<le> i \<and> i < n_z then a_so
       else if z1 + 1 \<le> i \<and> i < z2 + 1 then a_sp
       else if 0 \<le> i \<and> i < z1 + 1 then a_sr else v"
  have "for_loop 0 ?N ?G create_array (cidx ?N i j) = ?H i j (create_array (cidx ?N i j))"
  proof (rule column_sweep [where H = ?H])
    fix k x i j assume "0 \<le> k" "k < ?N" "0 \<le> j" "j < ?N" "j \<noteq> k"
    then show "?G k x (cidx ?N i j) = x (cidx ?N i j)"
      by (simp add: Let_def col_write_at)
  next
    fix k x i assume "0 \<le> k" "k < ?N"
    then show "?G k x (cidx ?N i k) = ?H i k (x (cidx ?N i k))"
      by (simp add: Let_def col_write_at)
  qed (use j in auto)
  then show ?thesis using i iz by (auto simp: alphas_array_def INDEX_cidx)
qed

lemma set_candidate_fields:
  "alpha_sp (set_candidate x P) = (if x 0 \<le> 0.001 then 0.001 else x 0)"
  "theta_sp (set_candidate x P) = (if x 1 \<le> 0.001 then 0.001 else x 1)"
  "kappa_sp (set_candidate x P) = x 2"
  "minalpha (set_candidate x P) = minalpha P" "maxalpha (set_candidate x P) = maxalpha P"
  "mintheta (set_candidate x P) = mintheta P" "maxtheta (set_candidate x P) = maxtheta P"
  "minkappa (set_candidate x P) = minkappa P" "maxkappa (set_candidate x P) = maxkappa P"
  "nt (set_candidate x P) = nt P" "sd (set_candidate x P) = sd P" "dt (set_candidate x P) = dt P"
  "p_model (set_candidate x P) = p_model P"
  by (simp_all add: set_candidate_def Let_def)

lemma add_penalties_eq:
  "add_penalties Q m
   = m + 10 * violation (minalpha Q) (maxalpha Q) (alpha_sp Q)
       + 10 * violation (mintheta Q) (maxtheta Q) (theta_sp Q)
       + 10 * violation (minkappa Q) (maxkappa Q) (kappa_sp Q)"
  by (simp add: add_penalties_def Let_def violation_def penalty_factor_def)

lemma set_candidate_clamped:
  assumes "x 0 \<le> 0.001" "y 0 \<le> 0.001" "x 1 = y 1" "x 2 = y 2"
  shows "set_candidate x P = set_candidate y P"
  using assms by (simp add: set_candidate_def Let_def)

section \<open>The loop over time\<close>


lemma time_step_eq:
  "time_step P k S =
     mirror_axis P (clearance P (add_source P k
       ((if nolayer P = 0 then layer_branch P else nolayer_branch P)
          (S\<lparr>p := (p S)(k := c S (INDEX (nr P) (iprobe P) (jprobe P)))\<rparr>))))"
  by (simp add: time_step_def Let_def)

lemma time_loop_step: "nds P < n \<Longrightarrow> time_loop P p0 n = time_step P (n - 1) (time_loop P p0 (n - 1))"
  by (simp add: time_loop_def for_loop_last)

lemma time_loop_start: "time_loop P p0 (nds P) = solver_init P p0"
  by (simp add: time_loop_def for_loop_empty)






section \<open>Positivity of one explicit step of the stencil\<close>

lemma stencil_nonneg:
  fixes x l r v s1 w g :: real
  assumes "0 \<le> x" "0 \<le> l" "0 \<le> r" "- g * x \<le> v" "0 \<le> g"
    and "0 \<le> s1" "(6 + g) * s1 \<le> 1" "0 \<le> w" "w \<le> s1"
  shows "0 \<le> x + s1 * (v + l + r - 4 * x) + w * (r - l)"
proof -
  have "(4 + g) * s1 \<le> 1" using assms by (simp add: algebra_simps)
  then have t1: "0 \<le> x * (1 - (4 + g) * s1)" using assms by (intro mult_nonneg_nonneg) auto
  have t2: "0 \<le> s1 * (v + g * x)" using assms by (intro mult_nonneg_nonneg) auto
  have t3: "0 \<le> (s1 - w) * l" using assms by (intro mult_nonneg_nonneg) auto
  have t4: "0 \<le> (s1 + w) * r" using assms by (intro mult_nonneg_nonneg) auto
  have "x + s1 * (v + l + r - 4 * x) + w * (r - l)
        = x * (1 - (4 + g) * s1) + s1 * (v + g * x) + (s1 - w) * l + (s1 + w) * r"
    by (simp add: algebra_simps)
  then show ?thesis using t1 t2 t3 t4 by linarith
qed

lemma axis_nonneg:
  fixes x l r v s1 g :: real
  assumes "0 \<le> x" "0 \<le> l" "0 \<le> r" "- g * x \<le> v" "0 \<le> g"
    and "0 \<le> s1" "(6 + g) * s1 \<le> 1"
  shows "0 \<le> x + s1 * (v + 2 * l + 2 * r - 6 * x)"
proof -
  have t1: "0 \<le> x * (1 - (6 + g) * s1)" using assms by (intro mult_nonneg_nonneg) auto
  have t2: "0 \<le> s1 * (v + g * x)" using assms by (intro mult_nonneg_nonneg) auto
  have t3: "0 \<le> s1 * (2 * l + 2 * r)" using assms by (intro mult_nonneg_nonneg) auto
  have "x + s1 * (v + 2 * l + 2 * r - 6 * x)
        = x * (1 - (6 + g) * s1) + s1 * (v + g * x) + s1 * (2 * l + 2 * r)"
    by (simp add: algebra_simps)
  then show ?thesis using t1 t2 t3 by linarith
qed

text \<open>
  The cell \<open>(i, j)\<close>, \<open>j \<ge> 1\<close>, of a sub-grid after one explicit step. The cells of the row
  are non-negative; the rows above and below may hold extrapolated values, as long as
  their sum at column \<open>j\<close> is at least \<open>- g\<close> times the cell.
\<close>

lemma conv_cell_nonneg:
  fixes a :: darray
  assumes size: "2 \<le> M" "3 \<le> N"
    and cell: "0 \<le> i" "i < M" "1 \<le> j" "j < N"
    and s1: "0 \<le> s1" "(6 + g) * s1 \<le> 1" "0 \<le> g"
    and q: "\<And>k. 1 \<le> k \<Longrightarrow> k < N \<Longrightarrow> 0 \<le> s2 * ir k \<and> s2 * ir k \<le> s1"
    and row: "\<And>k. 0 \<le> k \<Longrightarrow> k < N \<Longrightarrow> 0 \<le> a (cidx N i k)"
    and vert: "- g * a (cidx N i j)
               \<le> (if 1 \<le> i then a (cidx N (i - 1) j) else 0)
                 + (if i \<le> M - 2 then a (cidx N (i + 1) j) else 0)"
  shows "0 \<le> a (cidx N i j) + convolve3 M N a s1 s2 ir out (cidx N i j)"
proof -
  let ?x = "a (cidx N i j)"
  let ?l = "a (cidx N i (j - 1))"
  let ?r = "a (cidx N i (j + 1))"
  let ?v = "(if 1 \<le> i then a (cidx N (i - 1) j) else 0)
            + (if i \<le> M - 2 then a (cidx N (i + 1) j) else 0)"
  let ?w = "s2 * ir j"
  have x: "0 \<le> ?x" and l: "0 \<le> ?l" using row [of j] row [of "j - 1"] cell by simp_all
  have w: "0 \<le> ?w" "?w \<le> s1" using q [of j] cell by simp_all
  consider (inner) "j \<le> N - 2" "j \<noteq> 1 \<or> i = 0 \<or> i = M - 1"
    | (axis) "j = 1" "1 \<le> i" "i \<le> M - 2"
    | (last) "j = N - 1"
    using cell by linarith
  then show ?thesis
  proof cases
    case inner
    then have r: "0 \<le> ?r" using row [of "j + 1"] cell by simp
    have "convolve3 M N a s1 s2 ir out (cidx N i j) = s1 * (?v + ?l + ?r - 4 * ?x) + ?w * (?r - ?l)"
    proof -
      consider "i = 0" | "i = M - 1" | "1 \<le> i" "i \<le> M - 2" "2 \<le> j" using inner cell by linarith
      then show ?thesis
      proof cases
        case 1
        show ?thesis using size cell inner unfolding 1
          by (simp add: convolve3_row_first algebra_simps)
      next
        case 2
        show ?thesis using size cell inner unfolding 2
          by (simp add: convolve3_row_last algebra_simps)
      next
        case 3
        then show ?thesis using size cell inner
          by (simp add: convolve3_interior algebra_simps)
      qed
    qed
    then show ?thesis using stencil_nonneg [OF x l r vert s1(3) s1(1) s1(2) w] by simp
  next
    case axis
    then have r: "0 \<le> ?r" using row [of 2] size by simp
    have "convolve3 M N a s1 s2 ir out (cidx N i j) = s1 * (?v + 2 * ?l + 2 * ?r - 6 * ?x)"
      using axis size by (simp add: convolve3_axis algebra_simps)
    then show ?thesis using axis_nonneg [OF x l r vert s1(3) s1(1) s1(2)] by simp
  next
    case last
    have "convolve3 M N a s1 s2 ir out (cidx N i j) = s1 * (?v + ?l + 0 - 4 * ?x) + ?w * (0 - ?l)"
    proof -
      consider "i = 0" | "i = M - 1" | "1 \<le> i" "i \<le> M - 2" using cell by linarith
      then show ?thesis
      proof cases
        case 1
        show ?thesis using size unfolding 1 last
          by (simp add: convolve3_corner_first_last algebra_simps)
      next
        case 2
        show ?thesis using size unfolding 2 last
          by (simp add: convolve3_corner_last_last algebra_simps)
      next
        case 3
        then show ?thesis using size unfolding last
          by (simp add: convolve3_col_last algebra_simps)
      qed
    qed
    then show ?thesis
      using stencil_nonneg [OF x l order_refl vert s1(3) s1(1) s1(2) w] by simp
  qed
qed


section \<open>Positivity of a time step\<close>

lemma scale2_invr_bounds:
  fixes D d :: real
  assumes D: "0 \<le> D" and d: "0 < d" and k: "1 \<le> k" "k \<le> n"
  shows "0 \<le> D / (2 * d) * invr_array n d k \<and> D / (2 * d) * invr_array n d k \<le> D / SQR d"
proof (cases "k = 1")
  case True
  then show ?thesis using D d by (simp add: invr_array_at SQR_def)
next
  case False
  then have k2: "2 \<le> k" using k by simp
  let ?m = "real_of_int k - 1"
  have m: "1 \<le> ?m" using k2 by simp
  have e: "0 \<le> D / (d * d)" using D d by simp
  have eq: "D / (2 * d) * invr_array n d k = D / (d * d) * (1 / (2 * ?m))"
    using k2 k d m by (simp add: invr_array_at)
  have f: "0 \<le> 1 / (2 * ?m)" "1 / (2 * ?m) \<le> 1" using m by simp_all
  have "0 \<le> D / (d * d) * (1 / (2 * ?m))" using e f by (intro mult_nonneg_nonneg)
  moreover have "D / (d * d) * (1 / (2 * ?m)) \<le> D / (d * d) * 1"
    using e f by (intro mult_left_mono)
  ultimately have "0 \<le> D / (2 * d) * invr_array n d k \<and> D / (2 * d) * invr_array n d k \<le> D / (d * d)"
    unfolding eq by simp
  then show ?thesis unfolding SQR_def .
qed

lemma merge_layers_other [simp]:
  "p (merge_layers P S) = p S"
  by (simp add: merge_layers_eq)

lemma merge_layers_at:
  assumes j: "0 \<le> j" "j \<le> nr P" and i: "0 \<le> i" "i < nz P" and iz: "iz1 P \<le> iz2 P"
  shows "c (merge_layers P S) (INDEX (nr P) i j)
         = (if i \<le> iz1 P then c_sr S (INDEX (nr P) i j) + dc_sr S (INDEX (nr P) i j)
            else if i \<le> iz2 P
            then c_sp S (INDEX (nr P) (i - iz1 P) j) + dc_sp S (INDEX (nr P) (i - iz1 P) j)
            else c_so S (INDEX (nr P) (i - iz2 P) j) + dc_so S (INDEX (nr P) (i - iz2 P) j))"
proof -
  let ?N = "nr P + 1"
  let ?G = "\<lambda>j x.
              for_loop (iz2 P + 1) (nz P) (\<lambda>i x.
                  x(cidx ?N i j := c_so S (cidx ?N (i - iz2 P) j)
                                        + dc_so S (cidx ?N (i - iz2 P) j)))
               (for_loop (iz1 P + 1) (iz2 P + 1) (\<lambda>i x.
                  x(cidx ?N i j := c_sp S (cidx ?N (i - iz1 P) j)
                                        + dc_sp S (cidx ?N (i - iz1 P) j)))
                 (for_loop 0 (iz1 P + 1) (\<lambda>i x.
                  x(cidx ?N i j := c_sr S (cidx ?N i j)
                                        + dc_sr S (cidx ?N i j))) x))"
  let ?H = "\<lambda>i j (v :: real).
       if iz2 P + 1 \<le> i \<and> i < nz P
       then c_so S (cidx ?N (i - iz2 P) j) + dc_so S (cidx ?N (i - iz2 P) j)
       else if iz1 P + 1 \<le> i \<and> i < iz2 P + 1
       then c_sp S (cidx ?N (i - iz1 P) j) + dc_sp S (cidx ?N (i - iz1 P) j)
       else if 0 \<le> i \<and> i < iz1 P + 1
       then c_sr S (cidx ?N i j) + dc_sr S (cidx ?N i j) else v"
  have "for_loop 0 ?N ?G (c S) (cidx ?N i j) = ?H i j (c S (cidx ?N i j))"
  proof (rule column_sweep [where H = ?H])
    fix k x i j assume "0 \<le> k" "k < ?N" "0 \<le> j" "j < ?N" "j \<noteq> k"
    then show "?G k x (cidx ?N i j) = x (cidx ?N i j)"
      by (simp add: col_write_at)
  next
    fix k x i assume "0 \<le> k" "k < ?N"
    then show "?G k x (cidx ?N i k) = ?H i k (x (cidx ?N i k))"
      by (simp add: col_write_at)
  qed (use j in auto)
  then show ?thesis using i iz by (auto simp: merge_layers_eq INDEX_cidx)
qed

lemma convolve_layers_fields [simp]:
  "c (convolve_layers P S) = c S" "p (convolve_layers P S) = p S"
  "c_sr (convolve_layers P S) = c_sr S" "c_sp (convolve_layers P S) = c_sp S"
  "c_so (convolve_layers P S) = c_so S"
  "dc_sr (convolve_layers P S)
     = convolve3 (iz1 P + 2) (nr P + 1) (c_sr S) (const_sr1 P) (const_sr2 P) (invr P) (dc_sr S)"
  "dc_sp (convolve_layers P S)
     = convolve3 (iz2 P - iz1 P + 2) (nr P + 1) (c_sp S) (const_sp1 P) (const_sp2 P) (invr P) (dc_sp S)"
  "dc_so (convolve_layers P S)
     = convolve3 (nz P - iz2 P) (nr P + 1) (c_so S) (const_so1 P) (const_so2 P) (invr P) (dc_so S)"
  by (simp_all add: convolve_layers_def Let_def)

lemma layer_branch_at:
  assumes j: "0 \<le> j" "j \<le> nr P" and i: "0 \<le> i" "i < nz P" and iz: "iz1 P \<le> iz2 P"
  shows "c (layer_branch P S) (INDEX (nr P) i j)
         = (if i \<le> iz1 P
            then c_sr (split_layers P (interface_values P S)) (INDEX (nr P) i j)
                 + convolve3 (iz1 P + 2) (nr P + 1) (c_sr (split_layers P (interface_values P S)))
                     (const_sr1 P) (const_sr2 P) (invr P) (dc_sr S) (INDEX (nr P) i j)
            else if i \<le> iz2 P
            then c_sp (split_layers P (interface_values P S)) (INDEX (nr P) (i - iz1 P) j)
                 + convolve3 (iz2 P - iz1 P + 2) (nr P + 1) (c_sp (split_layers P (interface_values P S)))
                     (const_sp1 P) (const_sp2 P) (invr P) (dc_sp S) (INDEX (nr P) (i - iz1 P) j)
            else c_so (split_layers P (interface_values P S)) (INDEX (nr P) (i - iz2 P) j)
                 + convolve3 (nz P - iz2 P) (nr P + 1) (c_so (split_layers P (interface_values P S)))
                     (const_so1 P) (const_so2 P) (invr P) (dc_so S) (INDEX (nr P) (i - iz2 P) j))"
  using assms by (simp add: layer_branch_def Let_def merge_layers_at)

text \<open>The value of every cell after a whole time step, in terms of the branch taken.\<close>

lemma time_step_at:
  assumes nr: "2 \<le> nr P" and j: "0 \<le> j" "j \<le> nr P" and i: "0 \<le> i" "i < nz P"
    and iz: "iz1 P \<le> iz2 P"
  shows "c (time_step P k S) (INDEX (nr P) i j)
         = (c ((if nolayer P = 0 then layer_branch P else nolayer_branch P)
                 (S\<lparr>p := (p S)(k := c S (INDEX (nr P) (iprobe P) (jprobe P)))\<rparr>))
              (INDEX (nr P) i (if j = 0 then 2 else j))
            + (if t P k + dt P / 2 < sd P + st P
               then s P (INDEX (nr P) i (if j = 0 then 2 else j)) else 0))
           * (1 - (if i \<le> iz1 P then kappa_sr P else if i \<le> iz2 P then kappa_sp P else kappa_so P)
                  * dt P)"
  using assms by (simp add: time_step_eq mirror_axis_at clearance_at add_source_at)


lemma nolayer_branch_nonneg:
  assumes size: "2 \<le> nz P" "2 \<le> nr P"
    and s1: "0 \<le> const_sr1 P" "6 * const_sr1 P \<le> 1"
    and q: "\<And>k. 1 \<le> k \<Longrightarrow> k \<le> nr P \<Longrightarrow>
              0 \<le> const_sr2 P * invr P k \<and> const_sr2 P * invr P k \<le> const_sr1 P"
    and field: "\<And>i j. 0 \<le> i \<Longrightarrow> i < nz P \<Longrightarrow> 0 \<le> j \<Longrightarrow> j \<le> nr P
              \<Longrightarrow> 0 \<le> c S (INDEX (nr P) i j)"
    and cell: "0 \<le> i" "i < nz P" "1 \<le> j" "j \<le> nr P"
  shows "0 \<le> c (nolayer_branch P S) (INDEX (nr P) i j)"
proof -
  let ?N = "nr P + 1"
  have fld: "0 \<le> c S (cidx ?N i' j')" if "0 \<le> i'" "i' < nz P" "0 \<le> j'" "j' < ?N" for i' j'
    using field [of i' j'] that by (simp add: INDEX_cidx)
  have "0 \<le> c S (cidx ?N i j)
          + convolve3 (nz P) ?N (c S) (const_sr1 P) (const_sr2 P) (invr P) (dc S) (cidx ?N i j)"
  proof (rule conv_cell_nonneg [where g = 0])
    show "- 0 * c S (cidx ?N i j)
          \<le> (if 1 \<le> i then c S (cidx ?N (i - 1) j) else 0)
            + (if i \<le> nz P - 2 then c S (cidx ?N (i + 1) j) else 0)"
      using cell fld [of "i - 1" j] fld [of "i + 1" j] by auto
  qed (use size s1 q cell fld in auto)
  then show ?thesis using cell nolayer_branch_at [of j P i S] by (simp add: INDEX_cidx)
qed

lemma weight_excess_nonneg: "0 \<le> weight_excess w w'"
  by (simp add: weight_excess_def)

text \<open>An extrapolated value is at least minus the excess times the row it is taken from.\<close>

lemma ghost_bound:
  fixes w w' x y :: real
  assumes w: "0 < w" "0 < w'" and x: "0 \<le> x" and y: "0 \<le> y"
  shows "- weight_excess w w' * x \<le> 2 * ((w * x + w' * y) / (w + w')) - x"
proof -
  let ?W = "w + w'"
  have W: "0 < ?W" using w by simp
  have "(w' - w) / ?W \<le> weight_excess w w'" by (simp add: weight_excess_def)
  then have e: "(w' - w) / ?W * x \<le> weight_excess w w' * x"
    using x by (rule mult_right_mono)
  have nn: "0 \<le> 2 * w' * y / ?W" using w y W by simp
  have x_eq: "(w * x + w' * x) / ?W = x" using W by (simp add: distrib_right [symmetric])
  have "2 * ((w * x + w' * y) / ?W) - x = 2 * ((w * x + w' * y) / ?W) - (w * x + w' * x) / ?W"
    by (simp only: x_eq)
  also have "\<dots> = (2 * (w * x + w' * y) - (w * x + w' * x)) / ?W"
    by (simp only: times_divide_eq_right diff_divide_distrib)
  also have "\<dots> = (2 * w' * y - (w' - w) * x) / ?W"
    by (simp add: algebra_simps)
  also have "\<dots> = 2 * w' * y / ?W - (w' - w) * x / ?W"
    by (rule diff_divide_distrib)
  also have "\<dots> = 2 * w' * y / ?W - (w' - w) / ?W * x"
    by (simp only: times_divide_eq_left)
  finally show ?thesis using e nn by linarith
qed

lemma ghost_bound_swapped:
  fixes w w' x y :: real
  assumes "0 < w" "0 < w'" "0 \<le> x" "0 \<le> y"
  shows "- weight_excess w w' * x \<le> 2 * ((w' * y + w * x) / (w' + w)) - x"
  using ghost_bound [OF assms] by (simp add: add.commute)

lemma interface_ghost_bounds:
  assumes w: "0 < dstar_sr P * alpha_sr P" "0 < dstar_sp P * alpha_sp P"
      "0 < dstar_so P * alpha_so P"
    and iz: "0 \<le> iz1 P" "iz1 P < iz2 P" "iz2 P + 1 < nz P"
    and field: "\<And>i j. 0 \<le> i \<Longrightarrow> i < nz P \<Longrightarrow> 0 \<le> j \<Longrightarrow> j \<le> nr P
              \<Longrightarrow> 0 \<le> c S (INDEX (nr P) i j)"
    and j: "0 \<le> j" "j \<le> nr P"
  shows "- excess_sr P * c S (INDEX (nr P) (iz1 P) j)
           \<le> 2 * cb_sr (interface_values P S) j - c S (INDEX (nr P) (iz1 P) j)"
    and "- excess_sp P * c S (INDEX (nr P) (iz1 P + 1) j)
           \<le> 2 * cb_sr (interface_values P S) j - c S (INDEX (nr P) (iz1 P + 1) j)"
    and "- excess_sp P * c S (INDEX (nr P) (iz2 P) j)
           \<le> 2 * cb_so (interface_values P S) j - c S (INDEX (nr P) (iz2 P) j)"
    and "- excess_so P * c S (INDEX (nr P) (iz2 P + 1) j)
           \<le> 2 * cb_so (interface_values P S) j - c S (INDEX (nr P) (iz2 P + 1) j)"
proof -
  let ?x1 = "c S (INDEX (nr P) (iz1 P) j)" and ?y1 = "c S (INDEX (nr P) (iz1 P + 1) j)"
  let ?x2 = "c S (INDEX (nr P) (iz2 P) j)" and ?y2 = "c S (INDEX (nr P) (iz2 P + 1) j)"
  have nn: "0 \<le> ?x1" "0 \<le> ?y1" "0 \<le> ?x2" "0 \<le> ?y2"
    using iz j by (auto intro: field)
  show "- excess_sr P * ?x1 \<le> 2 * cb_sr (interface_values P S) j - ?x1"
    using ghost_bound [OF w(1) w(2) nn(1) nn(2)] j
    by (simp add: interface_values_at excess_sr_def)
  have "weight_excess (dstar_sp P * alpha_sp P) (dstar_sr P * alpha_sr P) * ?y1 \<le> excess_sp P * ?y1"
    using nn(2) by (intro mult_right_mono) (simp_all add: excess_sp_def)
  then show "- excess_sp P * ?y1 \<le> 2 * cb_sr (interface_values P S) j - ?y1"
    using ghost_bound_swapped [OF w(2) w(1) nn(2) nn(1)] j
    by (simp add: interface_values_at)
  have "weight_excess (dstar_sp P * alpha_sp P) (dstar_so P * alpha_so P) * ?x2 \<le> excess_sp P * ?x2"
    using nn(3) by (intro mult_right_mono) (simp_all add: excess_sp_def)
  then show "- excess_sp P * ?x2 \<le> 2 * cb_so (interface_values P S) j - ?x2"
    using ghost_bound [OF w(2) w(3) nn(3) nn(4)] j
    by (simp add: interface_values_at)
  show "- excess_so P * ?y2 \<le> 2 * cb_so (interface_values P S) j - ?y2"
    using ghost_bound_swapped [OF w(3) w(2) nn(4) nn(3)] j
    by (simp add: interface_values_at excess_so_def)
qed

lemma excess_nonneg: "0 \<le> excess_sr P" "0 \<le> excess_sp P" "0 \<le> excess_so P"
  by (simp_all add: excess_sr_def excess_sp_def excess_so_def weight_excess_def max_def)

lemma layer_branch_sr_nonneg:
  assumes nr: "2 \<le> nr P"
    and iz: "0 \<le> iz1 P" "iz1 P < iz2 P" "iz2 P + 1 < nz P"
    and w: "0 < dstar_sr P * alpha_sr P" "0 < dstar_sp P * alpha_sp P"
      "0 < dstar_so P * alpha_so P"
    and s1: "0 \<le> const_sr1 P" "(6 + excess_sr P) * const_sr1 P \<le> 1"
    and q: "\<And>k. 1 \<le> k \<Longrightarrow> k \<le> nr P \<Longrightarrow>
              0 \<le> const_sr2 P * invr P k \<and> const_sr2 P * invr P k \<le> const_sr1 P"
    and field: "\<And>i j. 0 \<le> i \<Longrightarrow> i < nz P \<Longrightarrow> 0 \<le> j \<Longrightarrow> j \<le> nr P
              \<Longrightarrow> 0 \<le> c S (INDEX (nr P) i j)"
    and cell: "0 \<le> i" "i \<le> iz1 P" "1 \<le> j" "j \<le> nr P"
  shows "0 \<le> c (layer_branch P S) (INDEX (nr P) i j)"
proof -
  let ?N = "nr P + 1"
  let ?A = "c_sr (split_layers P (interface_values P S))"
  have fld: "0 \<le> c S (cidx ?N i' j')" if "0 \<le> i'" "i' < nz P" "0 \<le> j'" "j' < ?N" for i' j'
    using field [of i' j'] that by (simp add: INDEX_cidx)
  have A: "?A (cidx ?N i' j')
           = (if i' = iz1 P + 1
              then 2 * cb_sr (interface_values P S) j' - c S (cidx ?N (iz1 P) j')
              else c S (cidx ?N i' j'))"
    if "0 \<le> i'" "i' \<le> iz1 P + 1" "0 \<le> j'" "j' < ?N" for i' j'
    using split_layers_sr_at [where j = j' and P = P and i = i' and S = "interface_values P S"] that
    by (simp add: INDEX_cidx)
  have ghost: "- excess_sr P * c S (cidx ?N (iz1 P) j)
           \<le> 2 * cb_sr (interface_values P S) j - c S (cidx ?N (iz1 P) j)"
    using interface_ghost_bounds(1) [OF w iz field, of j] cell by (simp add: INDEX_cidx)
  have gx: "0 \<le> excess_sr P * c S (cidx ?N i j)"
    using fld [of i j] cell iz by (intro mult_nonneg_nonneg excess_nonneg) simp_all
  have "0 \<le> ?A (cidx ?N i j)
          + convolve3 (iz1 P + 2) ?N ?A (const_sr1 P) (const_sr2 P) (invr P) (dc_sr S) (cidx ?N i j)"
  proof (rule conv_cell_nonneg [where g = "excess_sr P"])
    show "- excess_sr P * ?A (cidx ?N i j)
          \<le> (if 1 \<le> i then ?A (cidx ?N (i - 1) j) else 0)
            + (if i \<le> iz1 P + 2 - 2 then ?A (cidx ?N (i + 1) j) else 0)"
    proof -
      have Ax: "?A (cidx ?N i j) = c S (cidx ?N i j)" using A [of i j] cell by simp
      have up: "0 \<le> (if 1 \<le> i then ?A (cidx ?N (i - 1) j) else 0)"
        using A [of "i - 1" j] fld [of "i - 1" j] cell iz by simp
      have down: "- excess_sr P * c S (cidx ?N i j) \<le> ?A (cidx ?N (i + 1) j)"
      proof (cases "i = iz1 P")
        case True
        then show ?thesis using A [of "iz1 P + 1" j] cell ghost by simp
      next
        case False
        then have "?A (cidx ?N (i + 1) j) = c S (cidx ?N (i + 1) j)"
          using A [of "i + 1" j] cell by simp
        then show ?thesis using fld [of "i + 1" j] gx cell iz False by simp
      qed
      show ?thesis using up down cell by (simp add: Ax)
    qed
  next
    fix k assume "0 \<le> k" "k < ?N"
    then show "0 \<le> ?A (cidx ?N i k)" using cell iz fld [of i k] by (simp add: A)
  qed (use nr iz s1 q cell excess_nonneg in auto)
  then show ?thesis using cell iz layer_branch_at [of j P i S] by (simp add: INDEX_cidx)
qed

lemma layer_branch_sp_nonneg:
  assumes nr: "2 \<le> nr P"
    and iz: "0 \<le> iz1 P" "iz1 P + 2 \<le> iz2 P" "iz2 P + 1 < nz P"
    and w: "0 < dstar_sr P * alpha_sr P" "0 < dstar_sp P * alpha_sp P"
      "0 < dstar_so P * alpha_so P"
    and s1: "0 \<le> const_sp1 P" "(6 + excess_sp P) * const_sp1 P \<le> 1"
    and q: "\<And>k. 1 \<le> k \<Longrightarrow> k \<le> nr P \<Longrightarrow>
              0 \<le> const_sp2 P * invr P k \<and> const_sp2 P * invr P k \<le> const_sp1 P"
    and field: "\<And>i j. 0 \<le> i \<Longrightarrow> i < nz P \<Longrightarrow> 0 \<le> j \<Longrightarrow> j \<le> nr P
              \<Longrightarrow> 0 \<le> c S (INDEX (nr P) i j)"
    and cell: "iz1 P < i" "i \<le> iz2 P" "1 \<le> j" "j \<le> nr P"
  shows "0 \<le> c (layer_branch P S) (INDEX (nr P) i j)"
proof -
  let ?N = "nr P + 1"
  let ?M = "iz2 P - iz1 P + 2"
  let ?A = "c_sp (split_layers P (interface_values P S))"
  have iz': "iz1 P < iz2 P" using iz by simp
  have fld: "0 \<le> c S (cidx ?N i' j')" if "0 \<le> i'" "i' < nz P" "0 \<le> j'" "j' < ?N" for i' j'
    using field [of i' j'] that by (simp add: INDEX_cidx)
  have A: "?A (cidx ?N i' j')
           = (if i' = iz2 P - iz1 P + 1
              then 2 * cb_so (interface_values P S) j' - c S (cidx ?N (iz2 P) j')
              else if i' = 0
              then 2 * cb_sr (interface_values P S) j' - c S (cidx ?N (iz1 P + 1) j')
              else c S (cidx ?N (i' + iz1 P) j'))"
    if "0 \<le> i'" "i' \<le> iz2 P - iz1 P + 1" "0 \<le> j'" "j' < ?N" for i' j'
    using split_layers_sp_at [where j = j' and P = P and i = i' and S = "interface_values P S"]
      that iz'
    by (simp add: INDEX_cidx)
  have ghost: "- excess_sp P * c S (cidx ?N (iz1 P + 1) j)
           \<le> 2 * cb_sr (interface_values P S) j - c S (cidx ?N (iz1 P + 1) j)"
    "- excess_sp P * c S (cidx ?N (iz2 P) j)
           \<le> 2 * cb_so (interface_values P S) j - c S (cidx ?N (iz2 P) j)"
    using interface_ghost_bounds(2,3) [OF w iz(1) iz' iz(3) field, of j] cell
    by (simp_all add: INDEX_cidx)
  have gx: "0 \<le> excess_sp P * c S (cidx ?N i j)"
    using fld [of i j] cell iz by (intro mult_nonneg_nonneg excess_nonneg) simp_all
  have "0 \<le> ?A (cidx ?N (i - iz1 P) j)
          + convolve3 ?M ?N ?A (const_sp1 P) (const_sp2 P) (invr P) (dc_sp S) (cidx ?N (i - iz1 P) j)"
  proof (rule conv_cell_nonneg [where g = "excess_sp P"])
    show "- excess_sp P * ?A (cidx ?N (i - iz1 P) j)
          \<le> (if 1 \<le> i - iz1 P then ?A (cidx ?N (i - iz1 P - 1) j) else 0)
            + (if i - iz1 P \<le> ?M - 2 then ?A (cidx ?N (i - iz1 P + 1) j) else 0)"
    proof -
      have Ax: "?A (cidx ?N (i - iz1 P) j) = c S (cidx ?N i j)"
        using A [of "i - iz1 P" j] cell iz by simp
      have Au: "?A (cidx ?N (i - iz1 P - 1) j)
                = (if i = iz1 P + 1
                   then 2 * cb_sr (interface_values P S) j - c S (cidx ?N (iz1 P + 1) j)
                   else c S (cidx ?N (i - 1) j))"
        using A [of "i - iz1 P - 1" j] cell iz by auto
      have Ad: "?A (cidx ?N (i - iz1 P + 1) j)
                = (if i = iz2 P
                   then 2 * cb_so (interface_values P S) j - c S (cidx ?N (iz2 P) j)
                   else c S (cidx ?N (i + 1) j))"
        using A [of "i - iz1 P + 1" j] cell iz by (auto simp: add.commute)
      consider (low) "i = iz1 P + 1" | (high) "i = iz2 P" | (mid) "i \<noteq> iz1 P + 1" "i \<noteq> iz2 P"
        by blast
      then have "- excess_sp P * c S (cidx ?N i j)
                 \<le> ?A (cidx ?N (i - iz1 P - 1) j) + ?A (cidx ?N (i - iz1 P + 1) j)"
      proof cases
        case low
        then show ?thesis unfolding Au Ad using ghost(1) fld [of "i + 1" j] cell iz by simp
      next
        case high
        then show ?thesis unfolding Au Ad using ghost(2) fld [of "i - 1" j] cell iz by simp
      next
        case mid
        then show ?thesis unfolding Au Ad
          using gx fld [of "i - 1" j] fld [of "i + 1" j] cell iz by simp
      qed
      then show ?thesis using cell iz by (simp add: Ax)
    qed
  next
    fix k assume "0 \<le> k" "k < ?N"
    then show "0 \<le> ?A (cidx ?N (i - iz1 P) k)" using cell iz fld [of i k] A [of "i - iz1 P" k] by simp
  qed (use nr iz s1 q cell excess_nonneg in auto)
  then show ?thesis using cell iz layer_branch_at [of j P i S] by (simp add: INDEX_cidx)
qed


lemma layer_branch_so_nonneg:
  assumes nr: "2 \<le> nr P"
    and iz: "0 \<le> iz1 P" "iz1 P < iz2 P" "iz2 P + 1 < nz P"
    and w: "0 < dstar_sr P * alpha_sr P" "0 < dstar_sp P * alpha_sp P"
      "0 < dstar_so P * alpha_so P"
    and s1: "0 \<le> const_so1 P" "(6 + excess_so P) * const_so1 P \<le> 1"
    and q: "\<And>k. 1 \<le> k \<Longrightarrow> k \<le> nr P \<Longrightarrow>
              0 \<le> const_so2 P * invr P k \<and> const_so2 P * invr P k \<le> const_so1 P"
    and field: "\<And>i j. 0 \<le> i \<Longrightarrow> i < nz P \<Longrightarrow> 0 \<le> j \<Longrightarrow> j \<le> nr P
              \<Longrightarrow> 0 \<le> c S (INDEX (nr P) i j)"
    and cell: "iz2 P < i" "i < nz P" "1 \<le> j" "j \<le> nr P"
  shows "0 \<le> c (layer_branch P S) (INDEX (nr P) i j)"
proof -
  let ?N = "nr P + 1"
  let ?M = "nz P - iz2 P"
  let ?A = "c_so (split_layers P (interface_values P S))"
  have fld: "0 \<le> c S (cidx ?N i' j')" if "0 \<le> i'" "i' < nz P" "0 \<le> j'" "j' < ?N" for i' j'
    using field [of i' j'] that by (simp add: INDEX_cidx)
  have A: "?A (cidx ?N i' j')
           = (if i' = 0
              then 2 * cb_so (interface_values P S) j' - c S (cidx ?N (iz2 P + 1) j')
              else c S (cidx ?N (i' + iz2 P) j'))"
    if "0 \<le> i'" "i' \<le> nz P - iz2 P - 1" "0 \<le> j'" "j' < ?N" for i' j'
    using split_layers_so_at [where j = j' and P = P and i = i' and S = "interface_values P S"] that
    by (simp add: INDEX_cidx)
  have ghost: "- excess_so P * c S (cidx ?N (iz2 P + 1) j)
           \<le> 2 * cb_so (interface_values P S) j - c S (cidx ?N (iz2 P + 1) j)"
    using interface_ghost_bounds(4) [OF w iz field, of j] cell by (simp add: INDEX_cidx)
  have gx: "0 \<le> excess_so P * c S (cidx ?N i j)"
    using fld [of i j] cell iz by (intro mult_nonneg_nonneg excess_nonneg) simp_all
  have "0 \<le> ?A (cidx ?N (i - iz2 P) j)
          + convolve3 ?M ?N ?A (const_so1 P) (const_so2 P) (invr P) (dc_so S) (cidx ?N (i - iz2 P) j)"
  proof (rule conv_cell_nonneg [where g = "excess_so P"])
    show "- excess_so P * ?A (cidx ?N (i - iz2 P) j)
          \<le> (if 1 \<le> i - iz2 P then ?A (cidx ?N (i - iz2 P - 1) j) else 0)
            + (if i - iz2 P \<le> ?M - 2 then ?A (cidx ?N (i - iz2 P + 1) j) else 0)"
    proof -
      have Ax: "?A (cidx ?N (i - iz2 P) j) = c S (cidx ?N i j)"
        using A [of "i - iz2 P" j] cell iz by simp
      have up: "- excess_so P * c S (cidx ?N i j) \<le> ?A (cidx ?N (i - iz2 P - 1) j)"
      proof (cases "i = iz2 P + 1")
        case True
        then show ?thesis using A [of 0 j] cell iz ghost by simp
      next
        case False
        then have "?A (cidx ?N (i - iz2 P - 1) j) = c S (cidx ?N (i - 1) j)"
          using A [of "i - iz2 P - 1" j] cell iz by simp
        then show ?thesis using fld [of "i - 1" j] gx cell iz False by simp
      qed
      have down: "0 \<le> (if i - iz2 P \<le> ?M - 2 then ?A (cidx ?N (i - iz2 P + 1) j) else 0)"
        using A [of "i - iz2 P + 1" j] fld [of "i + 1" j] cell iz by (simp add: add.commute)
      show ?thesis using up down cell by (simp add: Ax)
    qed
  next
    fix k assume "0 \<le> k" "k < ?N"
    then show "0 \<le> ?A (cidx ?N (i - iz2 P) k)" using cell iz fld [of i k] A [of "i - iz2 P" k] by simp
  qed (use nr iz s1 q cell excess_nonneg in auto)
  then show ?thesis using cell iz layer_branch_at [of j P i S] by (simp add: INDEX_cidx)
qed



lemma time_step_nonneg:
  assumes grid: "2 \<le> nr P"
    and pos: "0 < dt P" "0 < dr P" "0 < dfree P"
      "0 < alpha_sr P" "0 < alpha_sp P" "0 < alpha_so P"
      "0 < theta_sr P" "0 < theta_sp P" "0 < theta_so P"
    and ir: "invr P = invr_array (nr P) (dr P)"
    and kap: "0 \<le> kappa_sr P" "kappa_sr P < 1 / dt P" "0 \<le> kappa_sp P" "kappa_sp P < 1 / dt P"
      "0 \<le> kappa_so P" "kappa_so P < 1 / dt P"
    and src: "\<And>i j. 0 \<le> i \<Longrightarrow> i < nz P \<Longrightarrow> 0 \<le> j \<Longrightarrow> j \<le> nr P
              \<Longrightarrow> 0 \<le> s P (INDEX (nr P) i j)"
    and layered: "nolayer P = 0 \<Longrightarrow> 0 \<le> iz1 P \<and> iz1 P + 2 \<le> iz2 P \<and> iz2 P + 2 \<le> nz P
              \<and> (6 + excess_sr P) * const_sr1 P \<le> 1
              \<and> (6 + excess_sp P) * const_sp1 P \<le> 1
              \<and> (6 + excess_so P) * const_so1 P \<le> 1"
    and homog: "nolayer P \<noteq> 0 \<Longrightarrow> 2 \<le> nz P \<and> iz1 P \<le> iz2 P \<and> 6 * const_sr1 P \<le> 1"
    and field: "\<And>i j. 0 \<le> i \<Longrightarrow> i < nz P \<Longrightarrow> 0 \<le> j \<Longrightarrow> j \<le> nr P
              \<Longrightarrow> 0 \<le> c S (INDEX (nr P) i j)"
    and cell: "0 \<le> i" "i < nz P" "0 \<le> j" "j \<le> nr P"
  shows "0 \<le> c (time_step P k S) (INDEX (nr P) i j)"
proof -
  let ?S1 = "S\<lparr>p := (p S)(k := c S (INDEX (nr P) (iprobe P) (jprobe P)))\<rparr>"
  let ?j = "if j = 0 then 2 else j"
  have j': "1 \<le> ?j" "?j \<le> nr P" "0 \<le> ?j" using cell grid by auto
  have field1: "0 \<le> c ?S1 (INDEX (nr P) i' j')"
    if "0 \<le> i'" "i' < nz P" "0 \<le> j'" "j' \<le> nr P" for i' j'
    using field [OF that] by simp
  have D: "0 \<le> dstar_sr P * dt P" "0 \<le> dstar_sp P * dt P" "0 \<le> dstar_so P * dt P"
    using pos by (simp_all add: dstar_sr_def dstar_sp_def dstar_so_def)
  have w: "0 < dstar_sr P * alpha_sr P" "0 < dstar_sp P * alpha_sp P"
    "0 < dstar_so P * alpha_so P"
    using pos by (simp_all add: dstar_sr_def dstar_sp_def dstar_so_def)
  have c1: "0 \<le> const_sr1 P" "0 \<le> const_sp1 P" "0 \<le> const_so1 P"
    using D pos by (simp_all add: const_sr1_def const_sp1_def const_so1_def SQR_def)
  have q_sr: "0 \<le> const_sr2 P * invr P m \<and> const_sr2 P * invr P m \<le> const_sr1 P"
    if "1 \<le> m" "m \<le> nr P" for m
    using scale2_invr_bounds [OF D(1) pos(2) that] by (simp add: const_sr1_def const_sr2_def ir)
  have q_sp: "0 \<le> const_sp2 P * invr P m \<and> const_sp2 P * invr P m \<le> const_sp1 P"
    if "1 \<le> m" "m \<le> nr P" for m
    using scale2_invr_bounds [OF D(2) pos(2) that] by (simp add: const_sp1_def const_sp2_def ir)
  have q_so: "0 \<le> const_so2 P * invr P m \<and> const_so2 P * invr P m \<le> const_so1 P"
    if "1 \<le> m" "m \<le> nr P" for m
    using scale2_invr_bounds [OF D(3) pos(2) that] by (simp add: const_so1_def const_so2_def ir)
  have iz: "iz1 P \<le> iz2 P" using layered homog by (cases "nolayer P = 0") auto
  have branch: "0 \<le> c ((if nolayer P = 0 then layer_branch P else nolayer_branch P) ?S1)
                     (INDEX (nr P) i ?j)"
  proof (cases "nolayer P = 0")
    case True
    note L = layered [OF True]
    have izs: "0 \<le> iz1 P" "iz1 P + 2 \<le> iz2 P" "iz2 P + 1 < nz P" "iz1 P < iz2 P"
      using L by auto
    consider "i \<le> iz1 P" | "iz1 P < i" "i \<le> iz2 P" | "iz2 P < i" by linarith
    then have "0 \<le> c (layer_branch P ?S1) (INDEX (nr P) i ?j)"
    proof cases
      case 1
      show ?thesis
        by (rule layer_branch_sr_nonneg [OF grid izs(1) izs(4) izs(3) w c1(1) _ q_sr field1])
           (use L cell 1 j' in auto)
    next
      case 2
      show ?thesis
        by (rule layer_branch_sp_nonneg [OF grid izs(1) izs(2) izs(3) w c1(2) _ q_sp field1])
           (use L cell 2 j' in auto)
    next
      case 3
      show ?thesis
        by (rule layer_branch_so_nonneg [OF grid izs(1) izs(4) izs(3) w c1(3) _ q_so field1])
           (use L cell 3 j' in auto)
    qed
    with True show ?thesis by simp
  next
    case False
    note H = homog [OF False]
    have "0 \<le> c (nolayer_branch P ?S1) (INDEX (nr P) i ?j)"
      by (rule nolayer_branch_nonneg [OF _ grid c1(1) _ q_sr field1])
         (use H cell j' in auto)
    with False show ?thesis by simp
  qed
  have source: "0 \<le> (if t P k + dt P / 2 < sd P + st P then s P (INDEX (nr P) i ?j) else 0)"
    using src [OF cell(1,2) j'(3,2)] by simp
  have "kappa_sr P * dt P < 1" "kappa_sp P * dt P < 1" "kappa_so P * dt P < 1"
    using kap pos(1) by (simp_all add: pos_less_divide_eq)
  then have factor: "0 \<le> 1 - (if i \<le> iz1 P then kappa_sr P else if i \<le> iz2 P then kappa_sp P
                                else kappa_so P) * dt P"
    by simp
  show ?thesis
    unfolding time_step_at [OF grid cell(3,4) cell(1,2) iz]
    using branch source factor by (intro mult_nonneg_nonneg add_nonneg_nonneg)
qed


section \<open>Claims about the stencil\<close>

text \<open>
  C2. For a field of shape \<open>M \<times> N\<close>, the output of \<^verbatim>\<open>convolve3\<close> at an interior cell
  (\<open>1 \<le> i \<le> M - 2\<close>, \<open>2 \<le> j \<le> N - 2\<close>) is
  \<open>scale1 (C[i-1,j] + C[i,j-1] - 4 C[i,j] + C[i,j+1] + C[i+1,j])
    + scale2 (- C[i,j-1] + C[i,j+1]) invr[j]\<close>,
  and at an axis cell (\<open>j = 1\<close>, \<open>1 \<le> i \<le> M - 2\<close>; the grid has the column 2, \<open>3 \<le> N\<close>) it is
  \<open>scale1 (C[i-1,1] + 2 C[i,0] - 6 C[i,1] + 2 C[i,2] + C[i+1,1])\<close>, with no
  first-derivative term. Here \<open>C[i,j]\<close> is \<open>a (cidx N i j)\<close>, and the result does not depend
  on the previous content \<open>out\<close> of the output array.
\<close>

theorem convolve3_interior_and_axis_cells:
  assumes "1 \<le> i" "i \<le> M - 2"
  shows "(2 \<le> j \<and> j \<le> N - 2 \<longrightarrow>
           convolve3 M N a scale1 scale2 ir out (cidx N i j)
           = scale1 * (a (cidx N (i - 1) j) + a (cidx N i (j - 1)) - 4 * a (cidx N i j)
                       + a (cidx N i (j + 1)) + a (cidx N (i + 1) j))
             + scale2 * (- a (cidx N i (j - 1)) + a (cidx N i (j + 1))) * ir j)
       \<and> (3 \<le> N \<longrightarrow>
           convolve3 M N a scale1 scale2 ir out (cidx N i 1)
           = scale1 * (a (cidx N (i - 1) 1) + 2 * a (cidx N i 0) - 6 * a (cidx N i 1)
                       + 2 * a (cidx N i 2) + a (cidx N (i + 1) 1)))"
  using assms by (simp add: convolve3_interior convolve3_axis)

theorem convolve3_interior_and_axis_cells_witness:
  "convolve3 3 4 (\<lambda>k. real_of_int (k * k)) (1 / 10) (1 / 20) (invr_array 3 1) create_array (cidx 4 1 2)
     = 23 / 5
   \<and> convolve3 3 4 (\<lambda>k. real_of_int (k * k)) (1 / 10) (1 / 20) (invr_array 3 1) create_array (cidx 4 1 1)
     = 18 / 5"
  using convolve3_interior_and_axis_cells [of 1 3 2 4 "\<lambda>k. real_of_int (k * k)" "1 / 10" "1 / 20"
      "invr_array 3 1" create_array]
  by (simp add: cidx_def invr_array_at)

text \<open>
  C3, as stated, fails: on a field that is 1 everywhere the output on the first row is
  not zero. On the \<open>3 \<times> 4\<close> grid with \<open>scale1 = 1/10\<close>, \<open>scale2 = 1/20\<close> and the 1/r array
  of \<open>dr = 1\<close>, the cell \<open>(0, 2)\<close> receives \<open>- 1/10\<close>.
\<close>

theorem convolve3_constant_field_edge_counterexample:
  "convolve3 3 4 (\<lambda>_. 1) (1 / 10) (1 / 20) (invr_array 3 1) create_array (cidx 4 0 2) = - 1 / 10"
  by (simp add: convolve3_row_first)

text \<open>
  C3, amended. For a field that is \<open>v\<close> at every cell of the \<open>M \<times> N\<close> grid, the output of
  \<^verbatim>\<open>convolve3\<close> is zero at every cell off the domain edge (\<open>1 \<le> i \<le> M - 2\<close>,
  \<open>1 \<le> j \<le> N - 2\<close>); on the first and the last row, at the columns \<open>1 \<le> j \<le> N - 2\<close>, the
  one-sided stencil drops the missing neighbour and the output is \<open>- scale1 v\<close>.
\<close>

theorem convolve3_constant_field:
  assumes const: "\<And>i j. 0 \<le> i \<Longrightarrow> i < M \<Longrightarrow> 0 \<le> j \<Longrightarrow> j < N \<Longrightarrow> a (cidx N i j) = v"
    and size: "2 \<le> M" "3 \<le> N"
    and cell: "0 \<le> i" "i < M" "1 \<le> j" "j \<le> N - 2"
  shows "convolve3 M N a scale1 scale2 ir out (cidx N i j)
         = (if i = 0 \<or> i = M - 1 then - scale1 * v else 0)"
proof -
  consider "i = 0" | "i = M - 1" | "1 \<le> i \<and> i \<le> M - 2 \<and> j = 1" | "1 \<le> i \<and> i \<le> M - 2 \<and> 2 \<le> j"
    using cell by linarith
  then show ?thesis
  proof cases
    case 1
    then show ?thesis using size cell by (simp add: convolve3_row_first const)
  next
    case 2
    then show ?thesis using size cell by (simp add: convolve3_row_last const)
  next
    case 3
    then show ?thesis using size cell by (simp add: convolve3_axis const)
  next
    case 4
    then show ?thesis using size cell by (simp add: convolve3_interior const)
  qed
qed

theorem convolve3_constant_field_witness:
  "convolve3 3 4 (\<lambda>_. 1) (1 / 10) (1 / 20) (invr_array 3 1) create_array (cidx 4 1 2) = 0
   \<and> convolve3 3 4 (\<lambda>_. 1) (1 / 10) (1 / 20) (invr_array 3 1) create_array (cidx 4 2 1) = - 1 / 10"
  using convolve3_constant_field [of 3 4 "\<lambda>_. 1" 1 1 2 "1 / 10" "1 / 20" "invr_array 3 1" create_array]
    convolve3_constant_field [of 3 4 "\<lambda>_. 1" 1 2 1 "1 / 10" "1 / 20" "invr_array 3 1" create_array]
  by simp




section \<open>Claims about the time step\<close>

text \<open>
  C6. For every configuration, layered or homogeneous, with a grid that has the column 2
  (\<open>2 \<le> nr\<close>), the field after a time step has \<open>C[i,0] = C[i,2]\<close> in every row
  \<open>0 \<le> i < nz\<close>: this holds for the step applied to any state, and hence for the state of
  the solver after every step \<open>nds, ..., n - 1\<close> of its loop over time.
\<close>

theorem symmetry_after_every_step:
  assumes "2 \<le> nr P" "0 \<le> i" "i < nz P"
  shows "c (time_step P k S) (INDEX (nr P) i 0) = c (time_step P k S) (INDEX (nr P) i 2)
       \<and> (nds P < n \<longrightarrow>
            c (time_loop P p0 n) (INDEX (nr P) i 0) = c (time_loop P p0 n) (INDEX (nr P) i 2))"
proof -
  have step: "c (time_step P k S) (INDEX (nr P) i 0) = c (time_step P k S) (INDEX (nr P) i 2)"
    for k S
    using assms by (simp add: time_step_eq mirror_axis_at)
  then show ?thesis by (simp add: time_loop_step)
qed

theorem symmetry_after_every_step_witness:
  "c (time_step small_config 1 (solver_init small_config create_array)) (INDEX 3 2 0)
     = c (time_step small_config 1 (solver_init small_config create_array)) (INDEX 3 2 2)
   \<and> c (time_loop small_config create_array 3) (INDEX 3 2 0)
     = c (time_loop small_config create_array 3) (INDEX 3 2 2)"
proof -
  have "nds small_config = 1" by (simp add: nds_def int_of_long_def lround_def small_config_def)
  then show ?thesis
    using symmetry_after_every_step [of small_config 2 1 "solver_init small_config create_array" 3 create_array]
    by (simp add: small_config_def)
qed




text \<open>
  C1. In layered mode the time step is the composition of the stages below, and after
  its first two loops, for every column \<open>0 \<le> j \<le> nr\<close> (with \<open>iz1 \<le> iz2\<close>): the interface
  value \<open>cb_sr[j]\<close> is \<open>(D*_sr \<alpha>_sr c[iz1,j] + D*_sp \<alpha>_sp c[iz1+1,j]) / (D*_sr \<alpha>_sr + D*_sp \<alpha>_sp)\<close>
  and \<open>cb_so[j]\<close> is the same expression for SP, SO and the rows \<open>iz2\<close>, \<open>iz2 + 1\<close>; and
  each sub-grid has, at each interface of its layer, one extrapolated row whose value is
  twice the interface value minus the nearest row of that layer: row \<open>iz1 + 1\<close> of the SR
  sub-grid, rows \<open>0\<close> and \<open>iz2 - iz1 + 1\<close> of the SP sub-grid (SP has two interfaces), and
  row \<open>0\<close> of the SO sub-grid.
\<close>

theorem interface_values_and_ghost_rows:
  assumes "0 \<le> j" "j \<le> nr P" "iz1 P \<le> iz2 P"
  shows "(nolayer P = 0 \<longrightarrow>
            time_step P k S = mirror_axis P (clearance P (add_source P k
              (merge_layers P (convolve_layers P (split_layers P (interface_values P
                (S\<lparr>p := (p S)(k := c S (INDEX (nr P) (iprobe P) (jprobe P)))\<rparr>))))))))
       \<and> cb_sr (split_layers P (interface_values P S)) j
           = (dstar_sr P * alpha_sr P * c S (INDEX (nr P) (iz1 P) j)
              + dstar_sp P * alpha_sp P * c S (INDEX (nr P) (iz1 P + 1) j))
             / (dstar_sr P * alpha_sr P + dstar_sp P * alpha_sp P)
       \<and> cb_so (split_layers P (interface_values P S)) j
           = (dstar_sp P * alpha_sp P * c S (INDEX (nr P) (iz2 P) j)
              + dstar_so P * alpha_so P * c S (INDEX (nr P) (iz2 P + 1) j))
             / (dstar_sp P * alpha_sp P + dstar_so P * alpha_so P)
       \<and> c_sr (split_layers P (interface_values P S)) (INDEX (nr P) (iz1 P + 1) j)
           = 2 * cb_sr (split_layers P (interface_values P S)) j - c S (INDEX (nr P) (iz1 P) j)
       \<and> c_sp (split_layers P (interface_values P S)) (INDEX (nr P) 0 j)
           = 2 * cb_sr (split_layers P (interface_values P S)) j - c S (INDEX (nr P) (iz1 P + 1) j)
       \<and> c_sp (split_layers P (interface_values P S)) (INDEX (nr P) (iz2 P - iz1 P + 1) j)
           = 2 * cb_so (split_layers P (interface_values P S)) j - c S (INDEX (nr P) (iz2 P) j)
       \<and> c_so (split_layers P (interface_values P S)) (INDEX (nr P) 0 j)
           = 2 * cb_so (split_layers P (interface_values P S)) j - c S (INDEX (nr P) (iz2 P + 1) j)"
  using assms
  by (simp add: time_step_eq layer_branch_def Let_def interface_values_at
      split_layers_sr_at split_layers_sp_at split_layers_so_at)

theorem interface_values_and_ghost_rows_witness:
  "cb_sr (split_layers small_config (interface_values small_config
      (solver_init small_config create_array))) 1 = 3 / 11
   \<and> c_sr (split_layers small_config (interface_values small_config
      (solver_init small_config create_array))) (INDEX 3 2 1) = 6 / 11
   \<and> c_sp (split_layers small_config (interface_values small_config
      (solver_init small_config create_array))) (INDEX 3 0 1) = - 5 / 11"
proof -
  have "c (solver_init small_config create_array) (INDEX 3 1 1) = 0"
    "c (solver_init small_config create_array) (INDEX 3 2 1) = 1"
    by (simp_all add: solver_init_c small_config_fields INDEX_def)
  then show ?thesis
    using interface_values_and_ghost_rows [of 1 small_config 1 "solver_init small_config create_array"]
    by (simp add: small_config_fields dstar_sr_def dstar_sp_def)
qed

text \<open>
  C10. In homogeneous mode (\<open>nolayer \<noteq> 0\<close>) a time step applies \<^verbatim>\<open>convolve3\<close> once, to the
  whole field, with the constants of SR, and the clearance still acts per layer: at every
  cell \<open>0 \<le> i < nz\<close>, \<open>1 \<le> j \<le> nr\<close> the new value is the old value plus the stencil output
  (plus the source while it is on), times \<open>1 - \<kappa>_sr dt\<close> in the rows \<open>0..iz1\<close>,
  \<open>1 - \<kappa>_sp dt\<close> in the rows \<open>iz1+1..iz2\<close> and \<open>1 - \<kappa>_so dt\<close> in the rows \<open>iz2+1..nz-1\<close>.
  (Column 0 is then the copy of column 2.)
\<close>

theorem nolayer_step_clears_per_layer:
  assumes "nolayer P \<noteq> 0" "2 \<le> nr P" "iz1 P \<le> iz2 P"
    and "0 \<le> i" "i < nz P" "1 \<le> j" "j \<le> nr P"
  shows "c (time_step P k S) (INDEX (nr P) i j)
         = (c S (INDEX (nr P) i j)
            + convolve3 (nz P) (nr P + 1) (c S) (const_sr1 P) (const_sr2 P) (invr P) (dc S)
                (INDEX (nr P) i j)
            + (if t P k + dt P / 2 < sd P + st P then s P (INDEX (nr P) i j) else 0))
           * (1 - (if i \<le> iz1 P then kappa_sr P else if i \<le> iz2 P then kappa_sp P else kappa_so P)
                  * dt P)"
  using assms
  by (simp add: time_step_eq mirror_axis_at clearance_at add_source_at nolayer_branch_at)

theorem nolayer_step_clears_per_layer_witness:
  "c (time_step (small_config\<lparr>nolayer := 1\<rparr>) 1 (solver_init small_config create_array)) (INDEX 3 2 1)
     = (1 + convolve3 6 4 (c (solver_init small_config create_array)) (1 / 25) (1 / 50)
              (invr_array 3 1) create_array (INDEX 3 2 1) + 1) * (1 - 1 / 50)
   \<and> c (time_step (small_config\<lparr>nolayer := 1\<rparr>) 1 (solver_init small_config create_array)) (INDEX 3 4 1)
     = (0 + convolve3 6 4 (c (solver_init small_config create_array)) (1 / 25) (1 / 50)
              (invr_array 3 1) create_array (INDEX 3 4 1) + 0) * (1 - 1 / 100)"
proof -
  have "c (solver_init small_config create_array) (INDEX 3 2 1) = 1"
    "c (solver_init small_config create_array) (INDEX 3 4 1) = 0"
    by (simp_all add: solver_init_c small_config_fields INDEX_def)
  moreover have "dc (solver_init small_config create_array) = create_array"
    by (simp add: solver_init_def)
  ultimately show ?thesis
    using nolayer_step_clears_per_layer [of "small_config\<lparr>nolayer := 1\<rparr>" 2 1 1
        "solver_init small_config create_array"]
      nolayer_step_clears_per_layer [of "small_config\<lparr>nolayer := 1\<rparr>" 4 1 1
        "solver_init small_config create_array"]
    by (simp add: small_config_fields const_sr1_def const_sr2_def dstar_sr_def SQR_def INDEX_def)
qed


text \<open>
  C7, as stated, fails: without a bound on the time step the explicit scheme overshoots,
  and in layered mode the bound depends on the weights at the interfaces. In both runs
  below \<open>dt = dr = 1\<close>, the source array is a unit at the axis cell of row 2 (the first row
  of SP), the source is not added again (\<open>st = 0\<close>), and the clearance rates \<open>0\<close>, \<open>1/50\<close>,
  \<open>1/100\<close> lie in \<open>[0, 1/dt)\<close>. In homogeneous mode with \<open>D* dt / dr\<^sup>2 = 1/5\<close> the first step
  takes the source cell from \<open>1\<close> to \<open>(1 - 6/5) (1 - 1/50) = - 49/250\<close>. In layered mode with
  \<open>D* dt / dr\<^sup>2 = 3/20\<close> in every layer (the time step \<open>0.9 dr\<^sup>2 / (6 D*)\<close> that \<^verbatim>\<open>main\<close> takes
  by default) and \<open>\<alpha>_sr = 3/5\<close>, \<open>\<alpha>_sp = 1/10\<close>, the interface value is \<open>1/7\<close>, the
  extrapolated row of SP holds \<open>- 5/7\<close>, and the first step takes the source cell to
  \<open>(1 + 3/20 (- 5/7 - 6)) (1 - 1/50) = - 7/1000\<close>.
\<close>

theorem positivity_counterexample:
  "c (time_loop (small_config\<lparr>nolayer := 1, st := 0, dfree := 1 / 2\<rparr>) create_array 2) (INDEX 3 2 1)
     = - 49 / 250
   \<and> const_sp1 (small_config\<lparr>st := 0, dfree := 3 / 8, theta_sp := 2 / 5, alpha_sr := 3 / 5\<rparr>)
     = 3 / 20
   \<and> c (time_loop (small_config\<lparr>st := 0, dfree := 3 / 8, theta_sp := 2 / 5, alpha_sr := 3 / 5\<rparr>)
          create_array 2) (INDEX 3 2 1)
     = - 7 / 1000"
proof -
  let ?Q = "small_config\<lparr>nolayer := 1, st := 0, dfree := 1 / 2\<rparr>"
  let ?S0 = "solver_init ?Q create_array"
  have nds: "nds ?Q = 1" by (simp add: nds_def int_of_long_def lround_def small_config_fields)
  have loop: "time_loop ?Q create_array 2 = time_step ?Q 1 ?S0"
    using time_loop_step [of ?Q 2 create_array] time_loop_start [of ?Q create_array] nds by simp
  have c0: "c ?S0 k = s ?Q k" if "0 \<le> k" "k < 24" for k
    using solver_init_c [of k ?Q create_array] that by (simp add: small_config_fields)
  have conv: "convolve3 6 4 (c ?S0) (1 / 5) (1 / 10) (invr_array 3 1) (dc ?S0) (cidx 4 2 1) = - 6 / 5"
    using convolve3_axis [of 2 6 4 "c ?S0" "1 / 5" "1 / 10" "invr_array 3 1" "dc ?S0"]
    by (simp add: c0 cidx_def small_config_fields)
  have "c (time_step ?Q 1 ?S0) (INDEX 3 2 1) = (1 + - 6 / 5 + 0) * (1 - 1 / 50)"
    using time_step_at [of ?Q 1 2 1 ?S0] nolayer_branch_at [of 1 ?Q 2
        "?S0\<lparr>p := (p ?S0)(1 := c ?S0 (INDEX (nr ?Q) (iprobe ?Q) (jprobe ?Q)))\<rparr>"] conv
    by (simp add: small_config_fields const_sr1_def const_sr2_def dstar_sr_def SQR_def
        INDEX_cidx c0 cidx_def)
  then have homogeneous: "c (time_loop ?Q create_array 2) (INDEX 3 2 1) = - 49 / 250"
    by (simp add: loop)
  let ?L = "small_config\<lparr>st := 0, dfree := 3 / 8, theta_sp := 2 / 5, alpha_sr := 3 / 5\<rparr>"
  let ?T0 = "solver_init ?L create_array"
  let ?T1 = "?T0\<lparr>p := (p ?T0)(1 := 0)\<rparr>"
  let ?A = "c_sp (split_layers ?L (interface_values ?L ?T1))"
  have ndsL: "nds ?L = 1" by (simp add: nds_def int_of_long_def lround_def small_config_fields)
  have loopL: "time_loop ?L create_array 2 = time_step ?L 1 ?T0"
    using time_loop_step [of ?L 2 create_array] time_loop_start [of ?L create_array] ndsL by simp
  have d0: "c ?T0 k = s ?L k" if "0 \<le> k" "k < 24" for k
    using solver_init_c [of k ?L create_array] that by (simp add: small_config_fields)
  have s1: "const_sp1 ?L = 3 / 20" "const_sp2 ?L = 3 / 40"
    by (simp_all add: const_sp1_def const_sp2_def dstar_sp_def SQR_def small_config_fields)
  have cb: "cb_sr (interface_values ?L ?T1) 1 = 1 / 7"
    using interface_values_at(1) [of 1 ?L ?T1]
    by (simp add: small_config_fields dstar_sr_def dstar_sp_def INDEX_def d0)
  have A: "?A (cidx 4 0 1) = - 5 / 7" "?A (cidx 4 1 0) = 0" "?A (cidx 4 1 1) = 1"
    "?A (cidx 4 1 2) = 0" "?A (cidx 4 2 1) = 0"
    using split_layers_sp_at [where P = ?L and S = "interface_values ?L ?T1" and i = 0 and j = 1]
      split_layers_sp_at [where P = ?L and S = "interface_values ?L ?T1" and i = 1 and j = 0]
      split_layers_sp_at [where P = ?L and S = "interface_values ?L ?T1" and i = 1 and j = 1]
      split_layers_sp_at [where P = ?L and S = "interface_values ?L ?T1" and i = 1 and j = 2]
      split_layers_sp_at [where P = ?L and S = "interface_values ?L ?T1" and i = 2 and j = 1]
    by (simp_all add: small_config_fields INDEX_def cidx_def d0 cb)
  have convL: "convolve3 4 4 ?A (3 / 20) (3 / 40) (invr_array 3 1) (dc_sp ?T1) (cidx 4 1 1)
               = - 141 / 140"
    using convolve3_axis [of 1 4 4 ?A "3 / 20" "3 / 40" "invr_array 3 1" "dc_sp ?T1"]
    by (simp add: A)
  have "c (layer_branch ?L ?T1) (INDEX 3 2 1) = 1 + - 141 / 140"
    using layer_branch_at [of 1 ?L 2 ?T1] convL A(3)
    by (simp add: small_config_fields s1 INDEX_cidx)
  then have "c (time_step ?L 1 ?T0) (INDEX 3 2 1) = (1 + - 141 / 140 + 0) * (1 - 1 / 50)"
    using time_step_at [of ?L 1 2 1 ?T0]
    by (simp add: small_config_fields INDEX_def d0)
  then have layered: "c (time_loop ?L create_array 2) (INDEX 3 2 1) = - 7 / 1000"
    by (simp add: loopL)
  show ?thesis using homogeneous s1(1) layered by blast
qed

text \<open>
  C7, amended. Let the grid have the column 2, let \<open>dt\<close>, \<open>dr\<close>, \<open>D_free\<close> and every \<open>\<alpha>\<close>,
  \<open>\<theta>\<close> be positive, the array \<open>invr\<close> be the one \<^verbatim>\<open>main\<close> builds, every \<open>\<kappa>\<close> lie in
  \<open>[0, 1/dt)\<close>, and the source array be non-negative on the grid. Let the time step be
  bounded: in homogeneous mode \<open>6 D*_sr dt / dr\<^sup>2 \<le> 1\<close>, with \<open>2 \<le> nz\<close> and \<open>iz1 \<le> iz2\<close>; in
  layered mode \<open>(6 + g) D* dt / dr\<^sup>2 \<le> 1\<close> for each layer, with at least one row of SR, two
  of SP and one of SO (\<open>0 \<le> iz1\<close>, \<open>iz1 + 2 \<le> iz2\<close>, \<open>iz2 + 2 \<le> nz\<close>), where the excess \<open>g\<close> of
  a layer is the largest of \<open>max 0 ((w' - w) / (w + w'))\<close> over its interfaces, \<open>w = D* \<alpha>\<close>
  being the weight of the layer and \<open>w'\<close> that of the layer across the interface (so
  \<open>g = 0\<close>, and the bound is the homogeneous one, for a layer whose neighbours weigh no
  more than it does). Then the field of the solver is non-negative at every cell of the
  grid, initially and after every time step.
\<close>

theorem field_stays_nonneg:
  assumes grid: "2 \<le> nr P"
    and pos: "0 < dt P" "0 < dr P" "0 < dfree P"
      "0 < alpha_sr P" "0 < alpha_sp P" "0 < alpha_so P"
      "0 < theta_sr P" "0 < theta_sp P" "0 < theta_so P"
    and ir: "invr P = invr_array (nr P) (dr P)"
    and kap: "0 \<le> kappa_sr P" "kappa_sr P < 1 / dt P" "0 \<le> kappa_sp P" "kappa_sp P < 1 / dt P"
      "0 \<le> kappa_so P" "kappa_so P < 1 / dt P"
    and src: "\<And>i j. 0 \<le> i \<Longrightarrow> i < nz P \<Longrightarrow> 0 \<le> j \<Longrightarrow> j \<le> nr P
              \<Longrightarrow> 0 \<le> s P (INDEX (nr P) i j)"
    and layered: "nolayer P = 0 \<Longrightarrow> 0 \<le> iz1 P \<and> iz1 P + 2 \<le> iz2 P \<and> iz2 P + 2 \<le> nz P
              \<and> (6 + excess_sr P) * const_sr1 P \<le> 1
              \<and> (6 + excess_sp P) * const_sp1 P \<le> 1
              \<and> (6 + excess_so P) * const_so1 P \<le> 1"
    and homog: "nolayer P \<noteq> 0 \<Longrightarrow> 2 \<le> nz P \<and> iz1 P \<le> iz2 P \<and> 6 * const_sr1 P \<le> 1"
    and n: "nds P \<le> n"
    and cell: "0 \<le> i" "i < nz P" "0 \<le> j" "j \<le> nr P"
  shows "0 \<le> c (time_loop P p0 n) (INDEX (nr P) i j)"
proof -
  let ?Inv = "\<lambda>(m :: int) (S :: solver_state). \<forall>i j. 0 \<le> i \<and> i < nz P \<and> 0 \<le> j \<and> j \<le> nr P
                \<longrightarrow> 0 \<le> c S (INDEX (nr P) i j)"
  have "?Inv n (for_loop (nds P) n (time_step P) (solver_init P p0))"
  proof (rule for_loop_rule [where P = ?Inv, OF _ _ n])
    show "?Inv (nds P) (solver_init P p0)"
    proof (intro allI impI)
      fix i j assume ij: "0 \<le> i \<and> i < nz P \<and> 0 \<le> j \<and> j \<le> nr P"
      then have "0 \<le> cidx (nr P + 1) i j" "cidx (nr P + 1) i j < nz P * (nr P + 1)"
        using cidx_in_block [of i "nz P" j "nr P + 1"] by simp_all
      then have "c (solver_init P p0) (INDEX (nr P) i j) = s P (INDEX (nr P) i j)"
        by (simp add: solver_init_c INDEX_cidx)
      then show "0 \<le> c (solver_init P p0) (INDEX (nr P) i j)" using src ij by simp
    qed
  next
    fix k S assume "?Inv k S"
    then have field: "\<And>i j. 0 \<le> i \<Longrightarrow> i < nz P \<Longrightarrow> 0 \<le> j \<Longrightarrow> j \<le> nr P
              \<Longrightarrow> 0 \<le> c S (INDEX (nr P) i j)"
      by blast
    show "?Inv (k + 1) (time_step P k S)"
      using time_step_nonneg [OF grid pos ir kap src layered homog field] by blast
  qed
  then show ?thesis using cell by (simp add: time_loop_def)
qed

theorem field_stays_nonneg_witness:
  "0 \<le> c (time_loop small_config create_array 3) (INDEX 3 2 1)
   \<and> 0 \<le> c (time_loop (small_config\<lparr>nolayer := 1\<rparr>) create_array 3) (INDEX 3 5 0)
   \<and> const_sr1 (small_config\<lparr>dfree := 3 / 8\<rparr>) = 3 / 20
   \<and> 0 \<le> c (time_loop (small_config\<lparr>dfree := 3 / 8\<rparr>) create_array 3) (INDEX 3 2 1)"
proof -
  have nds: "nds small_config = 1" "nds (small_config\<lparr>nolayer := 1\<rparr>) = 1"
    "nds (small_config\<lparr>dfree := 3 / 8\<rparr>) = 1"
    by (simp_all add: nds_def int_of_long_def lround_def small_config_fields)
  note defs = const_sr1_def const_sp1_def const_so1_def dstar_sr_def dstar_sp_def dstar_so_def
    SQR_def excess_sr_def excess_sp_def excess_so_def weight_excess_def
  have "0 \<le> c (time_loop small_config create_array 3) (INDEX (nr small_config) 2 1)"
    by (rule field_stays_nonneg) (simp_all add: small_config_fields nds defs)
  moreover
  have "0 \<le> c (time_loop (small_config\<lparr>nolayer := 1\<rparr>) create_array 3)
               (INDEX (nr (small_config\<lparr>nolayer := 1\<rparr>)) 5 0)"
    by (rule field_stays_nonneg) (simp_all add: small_config_fields nds defs)
  moreover
  have "0 \<le> c (time_loop (small_config\<lparr>dfree := 3 / 8\<rparr>) create_array 3)
               (INDEX (nr (small_config\<lparr>dfree := 3 / 8\<rparr>)) 2 1)"
    by (rule field_stays_nonneg) (simp_all add: small_config_fields nds defs)
  moreover have "const_sr1 (small_config\<lparr>dfree := 3 / 8\<rparr>) = 3 / 20"
    by (simp add: small_config_fields defs)
  ultimately show ?thesis by (simp add: small_config_fields)
qed


section \<open>Claims about the homogeneous model, the source and the objective\<close>

text \<open>
  C4. For every sample index \<open>0 \<le> i < nt\<close>, with \<open>D* = theta dfree\<close> and
  \<open>A = samplitude / (4 \<pi> alpha D* d)\<close>, \<^verbatim>\<open>rti_theory\<close> stores exactly 0 when
  \<open>t[i] \<le> sdelay\<close>; \<open>A erfc (d / (2 sqrt (D* (t[i] - sdelay))))\<close> when
  \<open>sdelay < t[i] \<le> sdelay + sduration\<close>; and that value minus
  \<open>A erfc (d / (2 sqrt (D* (t[i] - sdelay - sduration))))\<close> when \<open>t[i] > sdelay + sduration\<close>.
  The result depends neither on \<^verbatim>\<open>kappa\<close> nor on the previous content of the output array.
\<close>

theorem rti_theory_piecewise:
  assumes "0 \<le> i" "i < n"
  shows "rti_theory erfc n d ampl0 sdl sdu ka dfr al th ts p0 i
         = (if ts i \<le> sdl then 0
            else if ts i \<le> sdl + sdu
            then ampl0 / (4 * pi * al * (th * dfr) * d)
                 * erfc (d / (2 * sqrt (th * dfr * (ts i - sdl))))
            else ampl0 / (4 * pi * al * (th * dfr) * d)
                 * erfc (d / (2 * sqrt (th * dfr * (ts i - sdl))))
                 - ampl0 / (4 * pi * al * (th * dfr) * d)
                   * erfc (d / (2 * sqrt (th * dfr * (ts i - sdl - sdu)))))"
proof -
  let ?A = "ampl0 / (4 * pi * al * (th * dfr) * d)"
  let ?h = "\<lambda>i (v :: real). if ts i \<le> sdl then 0
            else if ts i \<le> sdl + sdu
            then ?A * erfc (d / (2 * sqrt (th * dfr * (ts i - sdl))))
            else ?A * erfc (d / (2 * sqrt (th * dfr * (ts i - sdl))))
                 - ?A * erfc (d / (2 * sqrt (th * dfr * (ts i - sdl - sdu))))"
  have "rti_theory erfc n d ampl0 sdl sdu ka dfr al th ts p0
        = for_loop 0 n (\<lambda>i x. x(i := ?h i (x i))) p0"
    unfolding rti_theory_def Let_def
    by (rule arg_cong [where f = "\<lambda>b. for_loop 0 n b p0"]) (auto simp: fun_eq_iff algebra_simps)
  then show ?thesis
    using block_modify_at [OF assms, where h = ?h] by simp
qed

theorem rti_theory_piecewise_witness:
  "rti_theory (\<lambda>x. 1 / (1 + x)) 11 2 (8 * pi) 1 5 0 1 1 1 real_of_int create_array 1 = 0
   \<and> rti_theory (\<lambda>x. 1 / (1 + x)) 11 2 (8 * pi) 1 5 0 1 1 1 real_of_int create_array 2 = 1 / 2
   \<and> rti_theory (\<lambda>x. 1 / (1 + x)) 11 2 (8 * pi) 1 5 0 1 1 1 real_of_int create_array 10 = 1 / 12"
proof -
  have "sqrt 9 = 3" "sqrt 4 = 2"
    by (simp_all add: real_sqrt_unique)
  then show ?thesis
    using rti_theory_piecewise [of 1 11 "\<lambda>x. 1 / (1 + x)" 2 "8 * pi" 1 5 0 1 1 1 real_of_int create_array]
      rti_theory_piecewise [of 2 11 "\<lambda>x. 1 / (1 + x)" 2 "8 * pi" 1 5 0 1 1 1 real_of_int create_array]
      rti_theory_piecewise [of 10 11 "\<lambda>x. 1 / (1 + x)" 2 "8 * pi" 1 5 0 1 1 1 real_of_int create_array]
    by simp
qed

text \<open>
  C9, as stated, fails: the amount stored at the source cell carries the factor \<open>dt\<close>.
  With a current of \<open>FARADAY\<close> amperes and transport number 1 (a rate of 1 mol/s),
  \<open>dt = 1/2\<close>, \<open>dr = dz = 1\<close> and the source in SP (\<open>\<alpha> = 1/10\<close>), the cell holds \<open>20/\<pi>\<close>,
  not the rate times \<open>4 / (\<pi> dr\<^sup>2 dz \<alpha>) = 40/\<pi>\<close>.
\<close>

theorem source_amount_counterexample:
  "first_source 3 (alphas_array 6 3 1 3 (1 / 5) (1 / 10) (1 / 5)) (source_amplitude FARADAY 1)
       (1 / 2) 1 1 2 0 (INDEX 3 2 1) = 20 / pi
   \<and> source_amplitude FARADAY 1 * (4 / (pi * SQR 1 * 1 * (1 / 10))) = 40 / pi
   \<and> 20 / pi \<noteq> 40 / pi"
proof -
  have lr: "lround 2 = 2" "lround 0 = 0" by (simp_all add: lround_def)
  have al: "alphas_array 6 3 1 3 (1 / 5) (1 / 10) (1 / 5) (INDEX 3 2 1) = 1 / 10"
    by (simp add: alphas_array_at)
  show ?thesis
    by (simp add: first_source_def Let_def source_amplitude_def FARADAY_def SQR_def lr al)
qed

text \<open>
  C9, amended. The current is converted to the molar rate \<open>current trn / FARADAY\<close>, and the
  amount stored at the grid cell nearest to the source (row \<open>lround (z / dz)\<close>, column
  \<open>1 + lround (r / dr)\<close>, inside the grid) is that rate times \<open>dt\<close> times
  \<open>4 / (\<pi> dr\<^sup>2 dz \<alpha>)\<close>, with \<open>\<alpha>\<close> the volume fraction of the layer of that row. The first
  source is assigned to the fresh array; an additional source, with \<open>z\<close> shifted by
  \<open>coord_shift\<close>, adds its amount to the content of its cell and changes no other cell.
\<close>

theorem source_amount_with_time_step:
  assumes iz: "z1 \<le> z2"
  shows "(0 \<le> lround (z / d_z) \<and> lround (z / d_z) < n_z
          \<and> 0 \<le> 1 + lround (r / d_r) \<and> 1 + lround (r / d_r) \<le> n_r \<longrightarrow>
          first_source n_r (alphas_array n_z n_r z1 z2 a_sr a_sp a_so) (source_amplitude cur trn)
              d_t d_r d_z z r (INDEX n_r (lround (z / d_z)) (1 + lround (r / d_r)))
          = cur * trn / FARADAY * d_t
            * (4 / (pi * (d_r * d_r) * d_z
                    * (if lround (z / d_z) \<le> z1 then a_sr
                       else if lround (z / d_z) \<le> z2 then a_sp else a_so))))
       \<and> (0 \<le> lround ((sz src + shift) / d_z) \<and> lround ((sz src + shift) / d_z) < n_z
          \<and> 0 \<le> 1 + lround (sr src / d_r) \<and> 1 + lround (sr src / d_r) \<le> n_r \<longrightarrow>
          additional_source n_z n_r (alphas_array n_z n_r z1 z2 a_sr a_sp a_so) trn
              d_t d_r d_z shift k src s0
          = Inr (s0(INDEX n_r (lround ((sz src + shift) / d_z)) (1 + lround (sr src / d_r)) :=
                   s0 (INDEX n_r (lround ((sz src + shift) / d_z)) (1 + lround (sr src / d_r)))
                   + crnt src * trn / FARADAY * d_t
                     * (4 / (pi * (d_r * d_r) * d_z
                             * (if lround ((sz src + shift) / d_z) \<le> z1 then a_sr
                                else if lround ((sz src + shift) / d_z) \<le> z2 then a_sp else a_so))))))"
proof (intro conjI impI)
  assume "0 \<le> lround (z / d_z) \<and> lround (z / d_z) < n_z
          \<and> 0 \<le> 1 + lround (r / d_r) \<and> 1 + lround (r / d_r) \<le> n_r"
  then show "first_source n_r (alphas_array n_z n_r z1 z2 a_sr a_sp a_so) (source_amplitude cur trn)
              d_t d_r d_z z r (INDEX n_r (lround (z / d_z)) (1 + lround (r / d_r)))
          = cur * trn / FARADAY * d_t
            * (4 / (pi * (d_r * d_r) * d_z
                    * (if lround (z / d_z) \<le> z1 then a_sr
                       else if lround (z / d_z) \<le> z2 then a_sp else a_so)))"
    using iz by (simp add: first_source_def Let_def alphas_array_at source_amplitude_def SQR_def)
next
  assume "0 \<le> lround ((sz src + shift) / d_z) \<and> lround ((sz src + shift) / d_z) < n_z
          \<and> 0 \<le> 1 + lround (sr src / d_r) \<and> 1 + lround (sr src / d_r) \<le> n_r"
  then show "additional_source n_z n_r (alphas_array n_z n_r z1 z2 a_sr a_sp a_so) trn
              d_t d_r d_z shift k src s0
          = Inr (s0(INDEX n_r (lround ((sz src + shift) / d_z)) (1 + lround (sr src / d_r)) :=
                   s0 (INDEX n_r (lround ((sz src + shift) / d_z)) (1 + lround (sr src / d_r)))
                   + crnt src * trn / FARADAY * d_t
                     * (4 / (pi * (d_r * d_r) * d_z
                             * (if lround ((sz src + shift) / d_z) \<le> z1 then a_sr
                                else if lround ((sz src + shift) / d_z) \<le> z2 then a_sp else a_so)))))"
    using iz by (simp add: additional_source_def Let_def alphas_array_at SQR_def mult_ac)
qed

theorem source_amount_with_time_step_witness:
  "first_source 3 (alphas_array 6 3 1 3 (1 / 5) (1 / 10) (1 / 5)) (source_amplitude FARADAY 1)
       (1 / 2) 1 1 2 0 (INDEX 3 2 1) = 20 / pi
   \<and> additional_source 6 3 (alphas_array 6 3 1 3 (1 / 5) (1 / 10) (1 / 5)) 1
       (1 / 2) 1 1 2 0 \<lparr>sz = 2, sr = 1, crnt = FARADAY\<rparr> (\<lambda>_. 7)
     = Inr ((\<lambda>_. 7)(INDEX 3 4 2 := 7 + 10 / pi))"
proof -
  have "lround 2 = 2" "lround 0 = 0" "lround 4 = 4" "lround 1 = 1" by (simp_all add: lround_def)
  then show ?thesis
    using source_amount_with_time_step [of 1 3 2 1 6 0 1 3 "1 / 5" "1 / 10" "1 / 5" FARADAY 1
        "1 / 2" "\<lparr>sz = 2, sr = 1, crnt = FARADAY\<rparr>" 2 0 "\<lambda>_. 7"]
    by (simp add: FARADAY_def)
qed

text \<open>
  C8, as stated, fails: a candidate \<open>\<alpha>\<close> at or below 0.001 is replaced by 0.001 before the
  solver runs and before the penalty is taken. With the lower bound \<open>1/20\<close>, the candidates
  \<open>\<alpha> = -1\<close> and \<open>\<alpha> = -2\<close> (same \<open>\<theta>\<close>, \<open>\<kappa>\<close>) violate the bound by \<open>21/20\<close> and \<open>41/20\<close>,
  yet the objective returns the same value for both, without error.
\<close>

theorem penalty_clamped_candidate_counterexample:
  "calc_mse_fit_layer (\<lambda>i. if i = 0 then - 1 else if i = 1 then 3 / 10 else 1 / 50) small_config
     = calc_mse_fit_layer (\<lambda>i. if i = 0 then - 2 else if i = 1 then 3 / 10 else 1 / 50) small_config
   \<and> \<not> isl (calc_mse_fit_layer (\<lambda>i. if i = 0 then - 1 else if i = 1 then 3 / 10 else 1 / 50)
              small_config)
   \<and> violation (1 / 20) (1 / 2) (- 1) = 21 / 20
   \<and> violation (1 / 20) (1 / 2) (- 2) = 41 / 20"
proof -
  let ?xa = "\<lambda>i :: int. if i = 0 then - 1 else if i = 1 then 3 / 10 else (1 / 50 :: real)"
  let ?xb = "\<lambda>i :: int. if i = 0 then - 2 else if i = 1 then 3 / 10 else (1 / 50 :: real)"
  have same: "set_candidate ?xa small_config = set_candidate ?xb small_config"
    by (rule set_candidate_clamped) simp_all
  have "nds (set_candidate ?xa small_config) = 1"
    by (simp add: nds_def int_of_long_def set_candidate_fields small_config_fields lround_def)
  then have "\<not> isl (calc_mse_fit_layer ?xa small_config)"
    by (simp add: calc_mse_fit_layer_def Let_def calc_diffusion_curve_layer_fit_layer_def
        set_candidate_fields small_config_fields)
  moreover have "calc_mse_fit_layer ?xa small_config = calc_mse_fit_layer ?xb small_config"
    by (simp add: calc_mse_fit_layer_def same)
  ultimately show ?thesis by (simp add: violation_def)
qed

text \<open>
  C8, amended. When the objective returns a value, the value is the resampled mean
  squared error plus, for each of \<open>\<alpha>_sp\<close>, \<open>\<theta>_sp\<close>, \<open>\<kappa>_sp\<close> as stored in the struct, 10 times
  the amount by which it lies outside its \<open>[min, max]\<close> bound, where the stored \<open>\<alpha>_sp\<close> and
  \<open>\<theta>_sp\<close> are the candidate values raised to the floor 0.001 and the stored \<open>\<kappa>_sp\<close> is the
  candidate value. Consequently, for a fixed error term, the value with penalties strictly
  increases when the violation of one stored parameter increases and the other two
  violations do not decrease.
\<close>

theorem penalty_ten_times_stored_violation:
  "(calc_mse_fit_layer x P = Inr (v, P') \<longrightarrow>
      alpha_sp P' = (if x 0 \<le> 0.001 then 0.001 else x 0)
      \<and> theta_sp P' = (if x 1 \<le> 0.001 then 0.001 else x 1)
      \<and> kappa_sp P' = x 2
      \<and> v = resampled_mse P'
            + 10 * violation (minalpha P) (maxalpha P) (alpha_sp P')
            + 10 * violation (mintheta P) (maxtheta P) (theta_sp P')
            + 10 * violation (minkappa P) (maxkappa P) (kappa_sp P'))
   \<and> (violation (minalpha Q) (maxalpha Q) (alpha_sp Q)
         + violation (mintheta Q) (maxtheta Q) (theta_sp Q)
         + violation (minkappa Q) (maxkappa Q) (kappa_sp Q)
       < violation (minalpha Q') (maxalpha Q') (alpha_sp Q')
         + violation (mintheta Q') (maxtheta Q') (theta_sp Q')
         + violation (minkappa Q') (maxkappa Q') (kappa_sp Q')
       \<longrightarrow> add_penalties Q m < add_penalties Q' m)"
proof (intro conjI impI)
  assume r: "calc_mse_fit_layer x P = Inr (v, P')"
  let ?P1 = "set_candidate x P"
  from r obtain curve where P': "P' = ?P1\<lparr>p_model := curve\<rparr>"
    and v: "v = add_penalties P' (resampled_mse P')"
    by (auto simp: calc_mse_fit_layer_def Let_def split: sum.splits)
  show "alpha_sp P' = (if x 0 \<le> 0.001 then 0.001 else x 0)"
    "theta_sp P' = (if x 1 \<le> 0.001 then 0.001 else x 1)"
    "kappa_sp P' = x 2"
    by (simp_all add: P' set_candidate_fields)
  show "v = resampled_mse P'
            + 10 * violation (minalpha P) (maxalpha P) (alpha_sp P')
            + 10 * violation (mintheta P) (maxtheta P) (theta_sp P')
            + 10 * violation (minkappa P) (maxkappa P) (kappa_sp P')"
    unfolding v add_penalties_eq by (simp add: P' set_candidate_fields)
next
  assume "violation (minalpha Q) (maxalpha Q) (alpha_sp Q)
         + violation (mintheta Q) (maxtheta Q) (theta_sp Q)
         + violation (minkappa Q) (maxkappa Q) (kappa_sp Q)
       < violation (minalpha Q') (maxalpha Q') (alpha_sp Q')
         + violation (mintheta Q') (maxtheta Q') (theta_sp Q')
         + violation (minkappa Q') (maxkappa Q') (kappa_sp Q')"
  then show "add_penalties Q m < add_penalties Q' m"
    by (simp add: add_penalties_eq)
qed

theorem penalty_ten_times_stored_violation_witness:
  "fst (projr (calc_mse_fit_layer (\<lambda>i. if i = 0 then - 1 else if i = 1 then 3 / 10 else 1 / 5)
          small_config))
     = resampled_mse (snd (projr (calc_mse_fit_layer
          (\<lambda>i. if i = 0 then - 1 else if i = 1 then 3 / 10 else 1 / 5) small_config)))
       + 10 * (1 / 20 - 1 / 1000) + 10 * (1 / 5 - 1 / 10)
   \<and> add_penalties small_config 0 < add_penalties (small_config\<lparr>kappa_sp := 1 / 5\<rparr>) 0"
proof -
  let ?x = "\<lambda>i :: int. if i = 0 then - 1 else if i = 1 then 3 / 10 else (1 / 5 :: real)"
  have "nds (set_candidate ?x small_config) = 1"
    by (simp add: nds_def int_of_long_def set_candidate_fields small_config_fields lround_def)
  then have "\<not> isl (calc_mse_fit_layer ?x small_config)"
    by (simp add: calc_mse_fit_layer_def Let_def calc_diffusion_curve_layer_fit_layer_def
        set_candidate_fields small_config_fields)
  then have r: "calc_mse_fit_layer ?x small_config
        = Inr (fst (projr (calc_mse_fit_layer ?x small_config)),
               snd (projr (calc_mse_fit_layer ?x small_config)))"
    by (cases "calc_mse_fit_layer ?x small_config") simp_all
  have viol: "violation (1 / 20) (1 / 2) (1 / 1000) = 1 / 20 - 1 / 1000"
    "violation (1 / 10) 1 (3 / 10) = 0"
    "violation 0 (1 / 10) (1 / 5) = 1 / 5 - 1 / 10"
    "violation 0 (1 / 10) (1 / 50) = 0"
    by (simp_all add: violation_def)
  note inst = penalty_ten_times_stored_violation [of ?x small_config
        "fst (projr (calc_mse_fit_layer ?x small_config))"
        "snd (projr (calc_mse_fit_layer ?x small_config))"
        small_config "small_config\<lparr>kappa_sp := 1 / 5\<rparr>" 0]
  let ?P' = "snd (projr (calc_mse_fit_layer ?x small_config))"
  have a: "alpha_sp ?P' = 1 / 1000" using inst r by simp
  have b: "theta_sp ?P' = 3 / 10" using inst r by simp
  have k: "kappa_sp ?P' = 1 / 5" using inst r by simp
  have "fst (projr (calc_mse_fit_layer ?x small_config))
        = resampled_mse ?P'
            + 10 * violation (minalpha small_config) (maxalpha small_config) (alpha_sp ?P')
            + 10 * violation (mintheta small_config) (maxtheta small_config) (theta_sp ?P')
            + 10 * violation (minkappa small_config) (maxkappa small_config) (kappa_sp ?P')"
    using inst r by blast
  then have v: "fst (projr (calc_mse_fit_layer ?x small_config))
        = resampled_mse ?P' + 10 * (1 / 20 - 1 / 1000) + 10 * (1 / 5 - 1 / 10)"
    unfolding a b k by (simp only: small_config_fields viol)
  have "add_penalties small_config 0 < add_penalties (small_config\<lparr>kappa_sp := 1 / 5\<rparr>) 0"
    using inst by (simp add: small_config_fields viol)
  with v show ?thesis by blast
qed

end
